theory Spec2Isabelle
  imports Complex_Main
begin

section \<open>The figure pipeline of \<open>src/services/geminiService.ts\<close>\<close>

text \<open>
  The service is asynchronous TypeScript running in a browser. Everything outside the
  service (PDF.js, the inference client, the canvas, \<open>JSON.parse\<close>) is an input of the
  model: each external call has an outcome that is either a value or a thrown error, and
  the functions of the service are HOL functions of those outcomes.
\<close>

subsection \<open>Strings\<close>

text \<open>
  A JavaScript string is a sequence of UTF-16 code units; a code unit is a \<open>nat\<close>.
  \<open>js\<close> turns an ASCII literal into code units.
\<close>

type_synonym jsstring = "nat list"

abbreviation js :: "string \<Rightarrow> jsstring" where
  "js s \<equiv> map (of_char :: char \<Rightarrow> nat) s"

text \<open>\<open>String.prototype.toLowerCase\<close>, on the ASCII letters (the only place it is used
  is on text that matched an ASCII pattern).\<close>

definition toLowerCase :: "jsstring \<Rightarrow> jsstring" where
  "toLowerCase s = map (\<lambda>c. if 65 \<le> c \<and> c \<le> 90 then c + 32 else c) s"

definition startsWith :: "jsstring \<Rightarrow> jsstring \<Rightarrow> bool" where
  "startsWith s p = (take (length p) s = p)"

text \<open>\<open>Array.prototype.join(' ')\<close> on an array of strings.\<close>

fun join_space :: "jsstring list \<Rightarrow> jsstring" where
  "join_space [] = []"
| "join_space [x] = x"
| "join_space (x # y # ys) = x @ [32] @ join_space (y # ys)"

subsection \<open>Regular expressions\<close>

text \<open>
  The fragment of the JavaScript \<open>RegExp\<close> syntax that the service uses, all with the
  \<open>i\<close> flag and without the \<open>u\<close> flag: literal characters, \<open>\s\<close>, \<open>\d\<close>, a
  bracket class, sequence, alternation, \<open>?\<close>, \<open>*\<close> and \<open>+\<close> on a class, and capture
  groups. The matcher is the backtracking matcher of the language: \<open>rmatch r (caps, s)\<close>
  lists, in the order backtracking tries them, the captures and the rest of the input
  after each way of matching \<open>r\<close> at the start of \<open>s\<close>.
\<close>

datatype cls = Space | Digit | OneOf jsstring

datatype rx =
    Eps
  | Chr nat
  | Cls cls
  | Seq rx rx
  | Alt rx rx
  | Opt rx
  | StarCls cls
  | PlusCls cls
  | Group nat rx

text \<open>Case folding of the \<open>i\<close> flag: a code unit below 128 is compared by its upper
  case; a code unit from 128 on never folds to one below 128.\<close>

definition canon :: "nat \<Rightarrow> nat" where
  "canon c = (if 97 \<le> c \<and> c \<le> 122 then c - 32 else c)"

fun in_cls :: "cls \<Rightarrow> nat \<Rightarrow> bool" where
  "in_cls Space c =
     (c \<in> set [9, 10, 11, 12, 13, 32, 160, 5760, 8232, 8233, 8239, 8287, 12288, 65279]
      \<or> (8192 \<le> c \<and> c \<le> 8202))"
| "in_cls Digit c = (48 \<le> c \<and> c \<le> 57)"
| "in_cls (OneOf s) c = (c \<in> set s)"

fun lit :: "jsstring \<Rightarrow> rx" where
  "lit [] = Eps"
| "lit (c # cs) = Seq (Chr c) (lit cs)"

text \<open>A greedy \<open>*\<close> on a class: the longest run first, then every shorter one.\<close>

fun star_cls :: "cls \<Rightarrow> jsstring \<Rightarrow> jsstring list" where
  "star_cls k [] = [[]]"
| "star_cls k (x # xs) = (if in_cls k x then star_cls k xs @ [x # xs] else [x # xs])"

type_synonym caps = "nat \<rightharpoonup> jsstring"

fun rmatch :: "rx \<Rightarrow> caps \<times> jsstring \<Rightarrow> (caps \<times> jsstring) list" where
  "rmatch Eps st = [st]"
| "rmatch (Chr c) (cs, s) =
     (case s of [] \<Rightarrow> [] | x # xs \<Rightarrow> if canon x = canon c then [(cs, xs)] else [])"
| "rmatch (Cls k) (cs, s) =
     (case s of [] \<Rightarrow> [] | x # xs \<Rightarrow> if in_cls k x then [(cs, xs)] else [])"
| "rmatch (Seq a b) st = concat (map (rmatch b) (rmatch a st))"
| "rmatch (Alt a b) st = rmatch a st @ rmatch b st"
| "rmatch (Opt a) st = rmatch a st @ [st]"
| "rmatch (StarCls k) (cs, s) = map (Pair cs) (star_cls k s)"
| "rmatch (PlusCls k) (cs, s) =
     (case s of [] \<Rightarrow> []
      | x # xs \<Rightarrow> if in_cls k x then map (Pair cs) (star_cls k xs) else [])"
| "rmatch (Group n a) (cs, s) =
     map (\<lambda>(cs', r). (cs'(n \<mapsto> take (length s - length r) s), r)) (rmatch a (cs, s))"

text \<open>\<open>RegExp.prototype.exec\<close> of a pattern without the \<open>g\<close> and \<open>y\<close> flags: the match
  at the leftmost start position that has one, and there the first that backtracking
  finds. \<open>test\<close> says whether there is one.\<close>

fun exec :: "rx \<Rightarrow> jsstring \<Rightarrow> caps option" where
  "exec r [] = (case rmatch r (Map.empty, []) of [] \<Rightarrow> None | (cs, _) # _ \<Rightarrow> Some cs)"
| "exec r (x # xs) =
     (case rmatch r (Map.empty, x # xs) of [] \<Rightarrow> exec r xs | (cs, _) # _ \<Rightarrow> Some cs)"

definition test :: "rx \<Rightarrow> jsstring \<Rightarrow> bool" where
  "test r s = (exec r s \<noteq> None)"

subsection \<open>Numbers and parsed JSON\<close>

text \<open>
  A JavaScript number is a double: not-a-number, an infinity, or a finite value, which is
  a rational (the sign of zero is not modelled). The comparisons are those of the
  language: exact on the values, and false whenever an operand is \<open>NaN\<close>.
\<close>

datatype jsnum = NaN | NegInf | Fin rat | PosInf

fun js_le :: "jsnum \<Rightarrow> jsnum \<Rightarrow> bool" where
  "js_le NaN _ = False"
| "js_le _ NaN = False"
| "js_le NegInf _ = True"
| "js_le _ PosInf = True"
| "js_le (Fin a) (Fin b) = (a \<le> b)"
| "js_le _ _ = False"

fun js_lt :: "jsnum \<Rightarrow> jsnum \<Rightarrow> bool" where
  "js_lt NaN _ = False"
| "js_lt _ NaN = False"
| "js_lt (Fin a) (Fin b) = (a < b)"
| "js_lt NegInf NegInf = False"
| "js_lt NegInf _ = True"
| "js_lt PosInf _ = False"
| "js_lt (Fin a) PosInf = True"
| "js_lt (Fin a) NegInf = False"

definition js_gt :: "jsnum \<Rightarrow> jsnum \<Rightarrow> bool" where
  "js_gt a b = js_lt b a"

text \<open>A value that \<open>JSON.parse\<close> returns. An object is the list of its properties.\<close>

datatype json =
    JNull
  | JBool bool
  | JNum jsnum
  | JStr jsstring
  | JArr "json list"
  | JObj "(jsstring \<times> json) list"

text \<open>
  The builtins of the language that the service applies to values whose shape it does
  not control are parameters of the model: \<open>JSON.parse\<close> (\<open>None\<close> is the thrown
  \<open>SyntaxError\<close>); the conversion to a string of a value that is not a string (in a
  template literal) and the conversion to a number of a value that is not a number (in
  \<open>-\<close> and \<open>/\<close>), where \<open>None\<close> is the \<open>TypeError\<close> that the conversion of an
  object such as \<open>{"toString":1}\<close> throws; and the rounding of an exact result to a
  double (to the nearest double, an infinity on overflow).
\<close>

record runtime =
  JSON_parse :: "jsstring \<Rightarrow> json option"
  ToString :: "json \<Rightarrow> jsstring option"
  ToNumber :: "json \<Rightarrow> jsnum option"
  round_double :: "rat \<Rightarrow> jsnum"

definition to_string :: "runtime \<Rightarrow> json \<Rightarrow> jsstring option" where
  "to_string rt v = (case v of JStr s \<Rightarrow> Some s | _ \<Rightarrow> ToString rt v)"

definition to_number :: "runtime \<Rightarrow> json \<Rightarrow> jsnum option" where
  "to_number rt v = (case v of JNum n \<Rightarrow> Some n | _ \<Rightarrow> ToNumber rt v)"

text \<open>
  Arithmetic on doubles. The result of \<open>-\<close>, \<open>/\<close> or \<open>*\<close> on finite operands is the
  exact result rounded to a double; an exact result of zero is zero. \<open>js_div_pos x d\<close>
  is \<open>x / d\<close> for a finite \<open>d > 0\<close> (the service only divides by 1000), and
  \<open>js_times_dim n x\<close> is \<open>n * x\<close> for a finite \<open>n \<ge> 0\<close> (the pixel width or height of
  a decoded image).
\<close>

definition fl :: "runtime \<Rightarrow> rat \<Rightarrow> jsnum" where
  "fl rt r = (if r = 0 then Fin 0 else round_double rt r)"

fun js_minus :: "runtime \<Rightarrow> jsnum \<Rightarrow> jsnum \<Rightarrow> jsnum" where
  "js_minus rt NaN _ = NaN"
| "js_minus rt _ NaN = NaN"
| "js_minus rt (Fin a) (Fin b) = fl rt (a - b)"
| "js_minus rt (Fin a) PosInf = NegInf"
| "js_minus rt (Fin a) NegInf = PosInf"
| "js_minus rt PosInf PosInf = NaN"
| "js_minus rt PosInf _ = PosInf"
| "js_minus rt NegInf NegInf = NaN"
| "js_minus rt NegInf _ = NegInf"

fun js_div_pos :: "runtime \<Rightarrow> jsnum \<Rightarrow> rat \<Rightarrow> jsnum" where
  "js_div_pos rt (Fin a) d = fl rt (a / d)"
| "js_div_pos rt x d = x"

fun js_times_dim :: "runtime \<Rightarrow> nat \<Rightarrow> jsnum \<Rightarrow> jsnum" where
  "js_times_dim rt n (Fin a) = fl rt (rat_of_nat n * a)"
| "js_times_dim rt n NaN = NaN"
| "js_times_dim rt n x = (if n = 0 then NaN else x)"

text \<open>\<open>t || d\<close> for a string \<open>t\<close> that may be undefined: the default replaces an
  undefined and an empty string.\<close>

definition or_default :: "jsstring option \<Rightarrow> jsstring \<Rightarrow> jsstring" where
  "or_default t d = (case t of None \<Rightarrow> d | Some s \<Rightarrow> if s = [] then d else s)"

datatype js_error = TypeError | SyntaxError | ExternalError | CanvasContextError

text \<open>
  What a block of an asynchronous function, or a promise, comes to: \<open>Some (Inr v)\<close>, it
  returns \<open>v\<close> (the promise is fulfilled with \<open>v\<close>); \<open>Some (Inl err)\<close>, it throws (the
  promise is rejected); \<open>None\<close>, it waits forever on a promise that never settles.
\<close>

type_synonym 'a outcome = "(js_error + 'a) option"

text \<open>The outcome of one \<open>generateContent\<close> call of which the service reads
  \<open>response.text\<close>: the call throws, or the text is a string or undefined.\<close>

datatype gen_text = CallThrows | Text "jsstring option"

subsection \<open>Target Extractor: \<open>extractFigureTargets\<close>\<close>

definition extractFigureTargets :: "runtime \<Rightarrow> gen_text \<Rightarrow> jsstring \<Rightarrow> json list" where
  "extractFigureTargets rt response query =
     (case response of
        CallThrows \<Rightarrow> [JStr query]
      | Text t \<Rightarrow>
          let text = or_default t (js ''[]'') in
          (case JSON_parse rt text of
             None \<Rightarrow> [JStr query]
           | Some targets \<Rightarrow>
               (case targets of
                  JArr xs \<Rightarrow> if length xs > 0 then xs else [JStr query]
                | _ \<Rightarrow> [JStr query])))"

subsection \<open>Page Locator: \<open>findPageForQuery\<close>\<close>

text \<open>\<open>/(Figure|Fig\.?|Table)\s*(\d+)/i\<close>\<close>

definition queryPattern :: rx where
  "queryPattern =
     Seq (Group 1 (Alt (lit (js ''Figure''))
                  (Alt (Seq (lit (js ''Fig'')) (Opt (Chr 46))) (lit (js ''Table'')))))
         (Seq (StarCls Space) (Group 2 (PlusCls Digit)))"

text \<open>\<open>new RegExp(`(${labelType}|fig\\.?)\\s*${number}[.:]`, 'i')\<close> and the same
  without the last class. \<open>labelType\<close> is a word and \<open>number\<close> a run of digits, so
  both stand for themselves in the pattern.\<close>

definition captionPattern :: "jsstring \<Rightarrow> jsstring \<Rightarrow> rx" where
  "captionPattern labelType number =
     Seq (Group 1 (Alt (lit labelType) (Seq (lit (js ''fig'')) (Opt (Chr 46)))))
         (Seq (StarCls Space) (Seq (lit number) (Cls (OneOf (js ''.:'')))))"

definition loosePattern :: "jsstring \<Rightarrow> jsstring \<Rightarrow> rx" where
  "loosePattern labelType number =
     Seq (Group 1 (Alt (lit labelType) (Seq (lit (js ''fig'')) (Opt (Chr 46)))))
         (Seq (StarCls Space) (lit number))"

text \<open>What PDF.js gives for one page: \<open>getPage\<close> or \<open>getTextContent\<close> rejects, or the
  \<open>str\<close> of every text item. A loaded document is the list of its pages.\<close>

datatype page_text = TextThrows | TextItems "jsstring list"

definition getPage :: "page_text list \<Rightarrow> nat \<Rightarrow> page_text" where
  "getPage pages i = (if 1 \<le> i \<and> i \<le> length pages then pages ! (i - 1) else TextThrows)"

text \<open>\<open>let foundStrict = false\<close>: the loop reads the flag and never assigns it.\<close>

definition foundStrict :: bool where
  "foundStrict = False"

text \<open>The \<open>for\<close> loop of the scan, from page \<open>i\<close> with the current \<open>bestPage\<close>;
  \<open>Inl\<close> is the error that leaves the \<open>try\<close> block.\<close>

function scanPages :: "rx \<Rightarrow> rx \<Rightarrow> page_text list \<Rightarrow> nat \<Rightarrow> nat \<Rightarrow> nat \<Rightarrow> js_error + nat" where
  "scanPages cap loose pages maxScan i bestPage =
     (if i \<le> maxScan then
        (case getPage pages i of
           TextThrows \<Rightarrow> Inl ExternalError
         | TextItems items \<Rightarrow>
             (let text = join_space items in
              if test cap text then Inr i
              else scanPages cap loose pages maxScan (i + 1)
                     (if \<not> foundStrict \<and> test loose text then i else bestPage)))
      else Inr bestPage)"
  by pat_completeness auto
termination
  by (relation "measure (\<lambda>(cap, loose, pages, maxScan, i, bestPage). maxScan + 1 - i)") auto

declare scanPages.simps [simp del]

text \<open>
  \<open>pdfjs\<close> says whether \<open>window.pdfjsLib\<close> is defined and \<open>doc\<close> is the outcome of
  \<open>getDocument(pdfUrl).promise\<close> (\<open>None\<close>: it rejects). The query is typed \<open>string\<close>
  but comes from parsed JSON: on a value that is not a string, \<open>query.match\<close> throws
  a \<open>TypeError\<close>, outside the \<open>try\<close> block.
\<close>

definition findPageForQuery :: "bool \<Rightarrow> page_text list option \<Rightarrow> json \<Rightarrow> js_error + nat" where
  "findPageForQuery pdfjs doc query =
     (if \<not> pdfjs then Inr 1
      else case query of
        JStr q \<Rightarrow>
          (case exec queryPattern q of
             None \<Rightarrow> Inr 1
           | Some match \<Rightarrow>
               (case match 1 of
                  None \<Rightarrow> Inl TypeError
                | Some g1 \<Rightarrow>
                    let labelType =
                          (if startsWith (toLowerCase g1) (js ''t'') then js ''table''
                           else js ''figure'');
                        number = (case match 2 of None \<Rightarrow> js ''undefined'' | Some g2 \<Rightarrow> g2);
                        cap = captionPattern labelType number;
                        loose = loosePattern labelType number
                    in (case doc of
                          None \<Rightarrow> Inr 1
                        | Some pages \<Rightarrow>
                            let numPages = length pages;
                                maxScan = min numPages 30
                            in (case scanPages cap loose pages maxScan 1 1 of
                                  Inl e \<Rightarrow> Inr 1
                                | Inr page \<Rightarrow> Inr page))))
      | _ \<Rightarrow> Inl TypeError)"

subsection \<open>Page Rasterizer: \<open>renderPageAsImage\<close>\<close>

text \<open>
  \<open>raster pageNum\<close> is what loading the document, rendering the page on a canvas and
  \<open>toDataURL(...).split(',')[1]\<close> give: the encoded page, or the error thrown on the way
  (a rejected promise, or \<open>Canvas context not available\<close>). Without \<open>window.pdfjsLib\<close>
  the call \<open>pdfjs.getDocument\<close> throws a \<open>TypeError\<close>.
\<close>

definition renderPageAsImage :: "bool \<Rightarrow> (nat \<Rightarrow> js_error + jsstring) \<Rightarrow> nat \<Rightarrow> js_error + jsstring" where
  "renderPageAsImage pdfjs raster pageNum = (if \<not> pdfjs then Inl TypeError else raster pageNum)"

subsection \<open>The world of one target\<close>

text \<open>The image element fires \<open>onload\<close>, with the pixel width and height of the decoded
  image, or \<open>onerror\<close>.\<close>

datatype img_event = OnLoad nat nat | OnError

text \<open>A part of an enhancement response, and the outcome of the enhancement call: it
  throws, or \<open>candidates?.[0]?.content?.parts\<close> is undefined or a list of parts.\<close>

record inline_blob =
  blob_data :: "jsstring option"
  blob_mimeType :: "jsstring option"

record part =
  inlineData :: "inline_blob option"

datatype viz_response = VizThrows | VizParts "part list option"

text \<open>
  Every external call that the processing of one target makes, as a function of what the
  service passes to it. \<open>crop_jpeg img (sx, sy, sw, sh)\<close> is the canvas: a canvas of
  width \<open>sw\<close> and height \<open>sh\<close>, \<open>drawImage\<close> of that source rectangle of the image onto
  it, and \<open>toDataURL('image/jpeg').split(',')[1]\<close>.
\<close>

record branch_env =
  pdfjsLib :: bool
  locate_doc :: "page_text list option"
  raster :: "nat \<Rightarrow> js_error + jsstring"
  detect_call :: "jsstring \<Rightarrow> gen_text"
  image_load :: "jsstring \<Rightarrow> img_event"
  crop_context :: bool
  crop_jpeg :: "jsstring \<Rightarrow> jsnum \<times> jsnum \<times> jsnum \<times> jsnum \<Rightarrow> jsstring"
  enhance_call :: "jsstring \<Rightarrow> viz_response"

subsection \<open>Cropper: \<open>cropImage\<close>\<close>

text \<open>An element of the destructured box, as a number: a missing element is
  \<open>undefined\<close>, which is \<open>NaN\<close> in arithmetic; \<open>None\<close> when the conversion of the
  element throws. \<open>minus_at rt box i j\<close> is \<open>box[i] - box[j]\<close>.\<close>

definition num_at :: "runtime \<Rightarrow> json list \<Rightarrow> nat \<Rightarrow> jsnum option" where
  "num_at rt box i = (if i < length box then to_number rt (box ! i) else Some NaN)"

definition minus_at :: "runtime \<Rightarrow> json list \<Rightarrow> nat \<Rightarrow> nat \<Rightarrow> jsnum option" where
  "minus_at rt box i j =
     (case num_at rt box i of
        None \<Rightarrow> None
      | Some a \<Rightarrow> (case num_at rt box j of None \<Rightarrow> None | Some b \<Rightarrow> Some (js_minus rt a b)))"

text \<open>\<open>rY\<close>, \<open>rX\<close>, \<open>rH\<close> and \<open>rW\<close> of the \<open>onload\<close> handler, for the box
  \<open>[ymin, xmin, ymax, xmax]\<close>.\<close>

definition box_ratios :: "runtime \<Rightarrow> json list \<Rightarrow> (jsnum \<times> jsnum \<times> jsnum \<times> jsnum) option" where
  "box_ratios rt box =
     (case num_at rt box 0 of
        None \<Rightarrow> None
      | Some ymin \<Rightarrow>
          (case num_at rt box 1 of
             None \<Rightarrow> None
           | Some xmin \<Rightarrow>
               (case minus_at rt box 2 0 of
                  None \<Rightarrow> None
                | Some dh \<Rightarrow>
                    (case minus_at rt box 3 1 of
                       None \<Rightarrow> None
                     | Some dw \<Rightarrow>
                         Some (js_div_pos rt ymin 1000, js_div_pos rt xmin 1000,
                               js_div_pos rt dh 1000, js_div_pos rt dw 1000)))))"

text \<open>
  The promise that \<open>cropImage\<close> returns is settled by one of the two handlers, each by
  \<open>resolve\<close>; the function has no \<open>reject\<close>. An exception inside the \<open>onload\<close> handler
  (the conversion of a box element that throws) leaves the promise unsettled.
\<close>

definition cropImage :: "runtime \<Rightarrow> branch_env \<Rightarrow> jsstring \<Rightarrow> json list \<Rightarrow> jsstring outcome" where
  "cropImage rt e base64Image box =
     (case image_load e base64Image of
        OnError \<Rightarrow> Some (Inr base64Image)
      | OnLoad width height \<Rightarrow>
          (case box_ratios rt box of
             None \<Rightarrow> None
           | Some (rY, rX, rH, rW) \<Rightarrow>
               if js_le rW (Fin 0) \<or> js_le rH (Fin 0) then Some (Inr base64Image)
               else if crop_context e then
                 Some (Inr (crop_jpeg e base64Image
                              (js_times_dim rt width rX, js_times_dim rt height rY,
                               js_times_dim rt width rW, js_times_dim rt height rH)))
               else Some (Inr base64Image)))"

subsection \<open>Region Detector: the first inner \<open>try\<close> of \<open>processSingleFigure\<close>\<close>

text \<open>\<open>s.replace(/```json\n|\n```/g, '').replace(/```/g, '')\<close>: a global replace by
  the empty string of the leftmost occurrences of literal alternatives.\<close>

fun match_any :: "jsstring list \<Rightarrow> jsstring \<Rightarrow> nat option" where
  "match_any [] s = None"
| "match_any (p # ps) s = (if startsWith s p then Some (length p) else match_any ps s)"

fun remove_all :: "jsstring list \<Rightarrow> jsstring \<Rightarrow> jsstring" where
  "remove_all pats [] = []"
| "remove_all pats (x # xs) =
     (case match_any pats (x # xs) of
        None \<Rightarrow> x # remove_all pats xs
      | Some n \<Rightarrow> remove_all pats (drop (n - 1) xs))"

definition cleanFences :: "jsstring \<Rightarrow> jsstring" where
  "cleanFences s =
     remove_all [[96, 96, 96]]
       (remove_all [[96, 96, 96] @ js ''json'' @ [10], [10, 96, 96, 96]] s)"

text \<open>\<open>json.box_2d\<close>: reading a property of \<open>null\<close> throws; a value that is not an
  object has no such property.\<close>

definition get_box_2d :: "json \<Rightarrow> js_error + json option" where
  "get_box_2d j =
     (case j of
        JNull \<Rightarrow> Inl TypeError
      | JObj props \<Rightarrow> Inr (map_of props (js ''box_2d''))
      | _ \<Rightarrow> Inr None)"

text \<open>\<open>json.box_2d && Array.isArray(json.box_2d) && json.box_2d.length === 4\<close>\<close>

definition box_of :: "json option \<Rightarrow> json list option" where
  "box_of v = (case v of Some (JArr b) \<Rightarrow> if length b = 4 then Some b else None | _ \<Rightarrow> None)"

text \<open>\<open>h = y2 - y1\<close> and \<open>w = x2 - x1\<close> of the box \<open>[y1, x1, y2, x2]\<close>; \<open>None\<close> when
  the conversion of an element throws.\<close>

definition box_size :: "runtime \<Rightarrow> json list \<Rightarrow> (jsnum \<times> jsnum) option" where
  "box_size rt box_2d =
     (case minus_at rt box_2d 2 0 of
        None \<Rightarrow> None
      | Some h \<Rightarrow> (case minus_at rt box_2d 3 1 of None \<Rightarrow> None | Some w \<Rightarrow> Some (h, w)))"

text \<open>The safety checks on a box of four elements, in the order of the \<open>if\<close> chain.\<close>

datatype gate = NoValidBox | TooSmall | FullPage | Accepted

definition check_box :: "runtime \<Rightarrow> json list \<Rightarrow> js_error + gate" where
  "check_box rt box_2d =
     (case box_size rt box_2d of
        None \<Rightarrow> Inl TypeError
      | Some (h, w) \<Rightarrow>
          Inr (if js_le h (Fin 0) \<or> js_le w (Fin 0) then NoValidBox
               else if js_lt h (Fin 20) then TooSmall
               else if js_gt h (Fin 950) \<and> js_gt w (Fin 950) then FullPage
               else Accepted))"

text \<open>The calls that the processing of a target makes to the detector, the cropper and
  the enhancer, with the image each receives.\<close>

datatype call = CallDetect jsstring | CallCrop jsstring "json list" | CallEnhance jsstring

text \<open>
  The detection \<open>try\<close> block with its \<open>catch\<close>: the calls made, and
  \<open>croppedImageBase64\<close> when the block is left normally. The block builds the prompt
  from the target first; when the conversion of the target to a string throws there, it
  throws again in the warning of the \<open>catch\<close>, and the exception leaves the block. Every
  other exception ends in the \<open>catch\<close>, which keeps the full page. The block waits
  forever when the promise of \<open>cropImage\<close> never settles.
\<close>

definition detectAndCrop ::
  "runtime \<Rightarrow> branch_env \<Rightarrow> json \<Rightarrow> jsstring \<Rightarrow> call list \<times> jsstring outcome" where
  "detectAndCrop rt e target pageImageBase64 =
     (case to_string rt target of
        None \<Rightarrow> ([], Some (Inl TypeError))
      | Some name \<Rightarrow>
          (case detect_call e pageImageBase64 of
             CallThrows \<Rightarrow> ([CallDetect pageImageBase64], Some (Inr pageImageBase64))
           | Text t \<Rightarrow>
               let cleanText = cleanFences (or_default t (js ''{}'')) in
               (case JSON_parse rt cleanText of
                  None \<Rightarrow> ([CallDetect pageImageBase64], Some (Inr pageImageBase64))
                | Some json \<Rightarrow>
                    (case get_box_2d json of
                       Inl err \<Rightarrow> ([CallDetect pageImageBase64], Some (Inr pageImageBase64))
                     | Inr v \<Rightarrow>
                         (case box_of v of
                            None \<Rightarrow> ([CallDetect pageImageBase64], Some (Inr pageImageBase64))
                          | Some box_2d \<Rightarrow>
                              (case check_box rt box_2d of
                                 Inr Accepted \<Rightarrow>
                                   (case cropImage rt e pageImageBase64 box_2d of
                                      None \<Rightarrow>
                                        ([CallDetect pageImageBase64,
                                          CallCrop pageImageBase64 box_2d], None)
                                    | Some (Inl err) \<Rightarrow>
                                        ([CallDetect pageImageBase64,
                                          CallCrop pageImageBase64 box_2d],
                                         Some (Inr pageImageBase64))
                                    | Some (Inr cropped) \<Rightarrow>
                                        ([CallDetect pageImageBase64,
                                          CallCrop pageImageBase64 box_2d],
                                         Some (Inr cropped)))
                               | _ \<Rightarrow>
                                   ([CallDetect pageImageBase64],
                                    Some (Inr pageImageBase64))))))))"

subsection \<open>Enhancer: the second inner \<open>try\<close> of \<open>processSingleFigure\<close>\<close>

text \<open>The body of the loop over the parts: a part with inline data that is not empty
  assigns \<open>finalImageUrl\<close>.\<close>

definition enhance_part :: "jsstring \<Rightarrow> part \<Rightarrow> jsstring" where
  "enhance_part finalImageUrl p =
     (case inlineData p of
        None \<Rightarrow> finalImageUrl
      | Some b \<Rightarrow>
          (case blob_data b of
             None \<Rightarrow> finalImageUrl
           | Some d \<Rightarrow>
               if d = [] then finalImageUrl
               else js ''data:'' @ or_default (blob_mimeType b) (js ''image/png'')
                      @ js '';base64,'' @ d))"

definition enhance :: "branch_env \<Rightarrow> jsstring \<Rightarrow> call list \<times> jsstring" where
  "enhance e croppedImageBase64 =
     (let finalImageUrl = js ''data:image/jpeg;base64,'' @ croppedImageBase64 in
      ([CallEnhance croppedImageBase64],
       (case enhance_call e croppedImageBase64 of
          VizThrows \<Rightarrow> finalImageUrl
        | VizParts None \<Rightarrow> finalImageUrl
        | VizParts (Some parts) \<Rightarrow> foldl enhance_part finalImageUrl parts)))"

subsection \<open>One target: \<open>processSingleFigure\<close>\<close>

record figure_result =
  imageUrl :: jsstring
  label :: json
  error :: "jsstring option"

text \<open>The outer \<open>try\<close> block, with the calls it makes. The warning in the \<open>catch\<close> of
  the enhancement converts the target to a string too, after the detection block has
  done so.\<close>

definition processSingleFigure_try ::
  "runtime \<Rightarrow> branch_env \<Rightarrow> json \<Rightarrow> call list \<times> figure_result outcome" where
  "processSingleFigure_try rt e target =
     (case findPageForQuery (pdfjsLib e) (locate_doc e) target of
        Inl err \<Rightarrow> ([], Some (Inl err))
      | Inr pageNum \<Rightarrow>
          (case renderPageAsImage (pdfjsLib e) (raster e) pageNum of
             Inl err \<Rightarrow> ([], Some (Inl err))
           | Inr pageImageBase64 \<Rightarrow>
               (case detectAndCrop rt e target pageImageBase64 of
                  (calls1, None) \<Rightarrow> (calls1, None)
                | (calls1, Some (Inl err)) \<Rightarrow> (calls1, Some (Inl err))
                | (calls1, Some (Inr croppedImageBase64)) \<Rightarrow>
                    (case enhance e croppedImageBase64 of
                       (calls2, finalImageUrl) \<Rightarrow>
                         (calls1 @ calls2,
                          Some (Inr \<lparr>imageUrl = finalImageUrl, label = target,
                                     error = None\<rparr>))))))"

text \<open>
  The function with its \<open>catch\<close>: the outcome of the promise it returns, and the calls
  it made. The \<open>catch\<close> logs \<open>`Error processing ${target}`\<close> before it returns the
  failure record: when the conversion of the target to a string throws, the exception
  leaves the function and the promise is rejected.
\<close>

definition processSingleFigure_calls :: "runtime \<Rightarrow> branch_env \<Rightarrow> json \<Rightarrow> call list" where
  "processSingleFigure_calls rt e target = fst (processSingleFigure_try rt e target)"

definition processSingleFigure :: "runtime \<Rightarrow> branch_env \<Rightarrow> json \<Rightarrow> figure_result outcome" where
  "processSingleFigure rt e target =
     (case snd (processSingleFigure_try rt e target) of
        None \<Rightarrow> None
      | Some (Inl err) \<Rightarrow>
          (case to_string rt target of
             None \<Rightarrow> Some (Inl TypeError)
           | Some name \<Rightarrow>
               Some (Inr \<lparr>imageUrl = [], label = target,
                          error = Some (js ''Failed to process'')\<rparr>))
      | Some (Inr res) \<Rightarrow> Some (Inr res))"

subsection \<open>Orchestrator: \<open>visualizeFigure\<close>\<close>

text \<open>
  \<open>Promise.all\<close> over promises whose outcomes are \<open>ps\<close>. \<open>order\<close> lists indices of
  promises in the order in which they settle; a promise that never settles has no such
  event. Each fulfilled promise stores its value at its own index; the first rejection
  rejects the whole; when every slot is filled the whole is fulfilled with the slots.
  \<open>None\<close>: the whole never settles.
\<close>

fun settle :: "'a outcome list \<Rightarrow> nat list \<Rightarrow> 'a option list \<Rightarrow> 'a list outcome" where
  "settle ps [] values = map_option Inr (those values)"
| "settle ps (i # order) values =
     (if i < length ps then
        (case ps ! i of
           None \<Rightarrow> settle ps order values
         | Some (Inl err) \<Rightarrow> Some (Inl err)
         | Some (Inr v) \<Rightarrow> settle ps order (values[i := Some v]))
      else settle ps order values)"

definition promise_all :: "'a outcome list \<Rightarrow> nat list \<Rightarrow> 'a list outcome" where
  "promise_all ps order = settle ps order (replicate (length ps) None)"

text \<open>\<open>Promise.all(targets.map(t => this.processSingleFigure(t, paper.url)))\<close>, each
  target with the world its branch sees.\<close>

definition run_targets ::
  "runtime \<Rightarrow> (branch_env \<times> json) list \<Rightarrow> nat list \<Rightarrow> figure_result list outcome" where
  "run_targets rt branches order =
     promise_all (map (\<lambda>(e, t). processSingleFigure rt e t) branches) order"

record paper =
  paper_id :: jsstring
  title :: jsstring
  url :: jsstring
  fileName :: jsstring

text \<open>What one call of \<open>visualizeFigure\<close> meets: the identifier and the clock of the
  message, the response of the extraction call, the world of the branch of the \<open>i\<close>-th
  target, and the order in which the branches settle.\<close>

record world =
  randomUUID :: jsstring
  now :: nat
  extract_response :: gen_text
  branch :: "nat \<Rightarrow> branch_env"
  settle_order :: "nat list"

definition figure_results :: "runtime \<Rightarrow> world \<Rightarrow> jsstring \<Rightarrow> figure_result list outcome" where
  "figure_results rt w query =
     (let targets = extractFigureTargets rt (extract_response w) query in
      run_targets rt (zip (map (branch w) [0..<length targets]) targets) (settle_order w))"

text \<open>The body of the loop over the results, on \<open>content\<close> and \<open>hasSuccess\<close>; \<open>Inl\<close>
  when the conversion of the label to a string throws.\<close>

definition add_result ::
  "runtime \<Rightarrow> jsstring \<times> bool \<Rightarrow> figure_result \<Rightarrow> js_error + jsstring \<times> bool" where
  "add_result rt acc res =
     (case acc of
        (content, hasSuccess) \<Rightarrow>
          (case to_string rt (label res) of
             None \<Rightarrow> Inl TypeError
           | Some name \<Rightarrow>
               if imageUrl res \<noteq> [] then
                 Inr (content @ js ''**'' @ name @ js ''**'' @ [10, 10]
                        @ js ''!['' @ name @ js '']('' @ imageUrl res @ js '')'' @ [10, 10],
                      True)
               else
                 Inr (content @ js ''*Could not visualize '' @ name @ js ''*'' @ [10, 10],
                      hasSuccess)))"

fun add_results ::
  "runtime \<Rightarrow> jsstring \<times> bool \<Rightarrow> figure_result list \<Rightarrow> js_error + jsstring \<times> bool" where
  "add_results rt acc [] = Inr acc"
| "add_results rt acc (res # results) =
     (case add_result rt acc res of
        Inl err \<Rightarrow> Inl err
      | Inr acc' \<Rightarrow> add_results rt acc' results)"

definition compose_content :: "runtime \<Rightarrow> figure_result list \<Rightarrow> js_error + jsstring" where
  "compose_content rt results =
     (case add_results rt (js ''Here is your visualization.'' @ [10, 10], False) results of
        Inl err \<Rightarrow> Inl err
      | Inr (content, hasSuccess) \<Rightarrow>
          if \<not> hasSuccess then
            Inr (js ''I could not locate or process the requested figures in this paper.'')
          else
            Inr (content
              @ js ''Do you want me to **give an analysis** of these figures or **describe** them?''))"

record message =
  msg_id :: jsstring
  role :: jsstring
  content :: jsstring
  timestamp :: nat
  citations :: "jsstring list option"
  msg_type :: "jsstring option"

text \<open>\<open>None\<close>: the promise of \<open>visualizeFigure\<close> never settles. An exception inside the
  \<open>try\<close> block gives the message of the \<open>catch\<close>.\<close>

definition critical_message :: "world \<Rightarrow> message" where
  "critical_message w =
     \<lparr>msg_id = randomUUID w, role = js ''model'',
      content = js ''I encountered a critical error while processing the request.'',
      timestamp = now w, citations = None, msg_type = None\<rparr>"

definition visualizeFigure :: "runtime \<Rightarrow> world \<Rightarrow> jsstring \<Rightarrow> paper option \<Rightarrow> message option" where
  "visualizeFigure rt w query p =
     (case p of
        None \<Rightarrow>
          Some \<lparr>msg_id = randomUUID w, role = js ''model'',
                content = js ''Please select a paper first.'', timestamp = now w,
                citations = None, msg_type = None\<rparr>
      | Some the_paper \<Rightarrow>
          (case figure_results rt w query of
             None \<Rightarrow> None
           | Some (Inl err) \<Rightarrow> Some (critical_message w)
           | Some (Inr results) \<Rightarrow>
               (case compose_content rt results of
                  Inl err \<Rightarrow> Some (critical_message w)
                | Inr text \<Rightarrow>
                    Some \<lparr>msg_id = randomUUID w, role = js ''model'',
                          content = text, timestamp = now w,
                          citations = Some [], msg_type = Some (js ''visualization'')\<rparr>)))"

section \<open>The words of the specification\<close>

text \<open>A part that carries inline image data: its \<open>inlineData\<close> has \<open>data\<close> that is not
  empty.\<close>

definition has_inline_image :: "part \<Rightarrow> bool" where
  "has_inline_image p =
     (case inlineData p of
        None \<Rightarrow> False
      | Some b \<Rightarrow> (case blob_data b of None \<Rightarrow> False | Some d \<Rightarrow> d \<noteq> []))"

text \<open>The box of four elements that a detector response contains, if it contains one:
  the call returned, the cleaned text parses, and \<open>box_2d\<close> of the parsed value is an
  array of length 4.\<close>

definition detected_box :: "runtime \<Rightarrow> gen_text \<Rightarrow> json list option" where
  "detected_box rt response =
     (case response of
        CallThrows \<Rightarrow> None
      | Text t \<Rightarrow>
          (case JSON_parse rt (cleanFences (or_default t (js ''{}''))) of
             None \<Rightarrow> None
           | Some j \<Rightarrow> (case get_box_2d j of Inl err \<Rightarrow> None | Inr v \<Rightarrow> box_of v)))"

text \<open>A box of height \<open>h\<close> and width \<open>w\<close> fails a validation gate: the height or the
  width is at most 0, or the height is below 20, or the height and the width are both
  above 950.\<close>

definition fails_gate :: "jsnum \<Rightarrow> jsnum \<Rightarrow> bool" where
  "fails_gate h w =
     (js_le h (Fin 0) \<or> js_le w (Fin 0) \<or> js_lt h (Fin 20)
      \<or> (js_gt h (Fin 950) \<and> js_gt w (Fin 950)))"


section \<open>The scan over the texts of readable pages\<close>

text \<open>The loop of \<open>scanPages\<close> when every page it reaches can be read: a recursion over
  the page texts. It is the form in which the properties of the loop are proved.\<close>

fun scan_texts :: "rx \<Rightarrow> rx \<Rightarrow> nat \<Rightarrow> nat \<Rightarrow> jsstring list \<Rightarrow> nat" where
  "scan_texts cap loose i best [] = best"
| "scan_texts cap loose i best (t # ts) =
     (if test cap t then i else scan_texts cap loose (Suc i) (if test loose t then i else best) ts)"

section \<open>Example worlds\<close>

text \<open>
  The conversions of an example runtime, for the values that \<open>JSON.parse\<close> returns.
  \<open>null\<close> and the booleans convert as the language has it. An object inherits
  \<open>toString\<close> and \<open>valueOf\<close> unless a property of its own hides them: a property named
  \<open>toString\<close> is not a function, its inherited \<open>valueOf\<close> returns the object itself, and
  the conversion throws a \<open>TypeError\<close>; without such a property the object is the string
  \<open>[object Object]\<close>, which is not a number. The examples convert no number to a
  string, no string to a number and no array, and the example conversions are not
  defined there.
\<close>

definition example_ToString :: "json \<Rightarrow> jsstring option" where
  "example_ToString v =
     (case v of
        JNull \<Rightarrow> Some (js ''null'')
      | JBool b \<Rightarrow> Some (if b then js ''true'' else js ''false'')
      | JObj props \<Rightarrow>
          if js ''toString'' \<in> set (map fst props) then None else Some (js ''[object Object]'')
      | _ \<Rightarrow> None)"

definition example_ToNumber :: "json \<Rightarrow> jsnum option" where
  "example_ToNumber v =
     (case v of
        JNull \<Rightarrow> Some (Fin 0)
      | JBool b \<Rightarrow> Some (if b then Fin 1 else Fin 0)
      | JObj props \<Rightarrow> if js ''toString'' \<in> set (map fst props) then None else Some NaN
      | _ \<Rightarrow> None)"


text \<open>
  The text \<open>{"box_2d":[0,0,0,0]}\<close>, and a runtime whose \<open>JSON.parse\<close> knows it, the
  empty array and the empty object, and throws on every other text. It rounds nothing:
  the examples compute with numbers whose exact results are doubles.
\<close>

definition sentinel_text :: jsstring where
  "sentinel_text = js ''{'' @ [34] @ js ''box_2d'' @ [34] @ js '':[0,0,0,0]}''"

definition small_runtime :: runtime where
  "small_runtime =
     \<lparr>JSON_parse =
        (\<lambda>s. if s = js ''[]'' then Some (JArr [])
             else if s = sentinel_text then
               Some (JObj [(js ''box_2d'', JArr [JNum (Fin 0), JNum (Fin 0), JNum (Fin 0), JNum (Fin 0)])])
             else if s = js ''{}'' then Some (JObj [])
             else None),
      ToString = example_ToString,
      ToNumber = example_ToNumber,
      round_double = Fin\<rparr>"

text \<open>Documents, as the lists of their pages.\<close>

definition loose_twice :: "page_text list" where
  "loose_twice =
     [TextItems [js ''Introduction''],
      TextItems [js ''see'', js ''Figure 1 here''],
      TextItems [js ''as Figure 1 shows'']]"

definition loose_then_throws :: "page_text list" where
  "loose_then_throws =
     [TextItems [js ''Introduction''],
      TextItems [js ''see'', js ''Figure 1 here''],
      TextThrows]"

definition loose_then_strict :: "page_text list" where
  "loose_then_strict =
     [TextItems [js ''Title''],
      TextItems [js ''see Figure 1''],
      TextItems [js ''Methods''],
      TextItems [js ''Results''],
      TextItems [js ''Figure 1: a plot'']]"

definition tables_then_throws :: "page_text list" where
  "tables_then_throws =
     [TextItems [js ''Title''],
      TextItems [js ''see Table 3''],
      TextItems [js ''table 3 again''],
      TextThrows,
      TextItems [js ''Table 3. Results'']]"

definition fig_caption_doc :: "page_text list" where
  "fig_caption_doc =
     [TextItems [js ''Title''],
      TextItems [js ''Fig. 2: a plot''],
      TextThrows]"

text \<open>Parts of an enhancement response, and the world of a target whose page is found
  and rasterized, whose detector answers with the sentinel box, whose canvas works, and
  whose enhancer answers with two image parts; then variations of it.\<close>

definition image_part :: "jsstring \<Rightarrow> jsstring option \<Rightarrow> part" where
  "image_part d mt = \<lparr>inlineData = Some \<lparr>blob_data = Some d, blob_mimeType = mt\<rparr>\<rparr>"

definition text_part :: part where
  "text_part = \<lparr>inlineData = None\<rparr>"

definition example_env :: branch_env where
  "example_env =
     \<lparr>pdfjsLib = True,
      locate_doc = Some loose_then_strict,
      raster = (\<lambda>n. if n = 5 then Inr (js ''PAGE5'') else Inr (js ''PAGE'')),
      detect_call = (\<lambda>img. Text (Some sentinel_text)),
      image_load = (\<lambda>img. OnLoad 200 100),
      crop_context = True,
      crop_jpeg = (\<lambda>img r. if r = (Fin 50, Fin (25 / 2), Fin 100, Fin 50) then js ''CROP'' else js ''OTHER''),
      enhance_call = (\<lambda>img. VizParts (Some [image_part (js ''AAA'') (Some (js ''image/webp'')),
                                           image_part (js ''BBB'') None]))\<rparr>"

definition no_image_env :: branch_env where
  "no_image_env =
     example_env\<lparr>detect_call := (\<lambda>img. CallThrows),
                 enhance_call := (\<lambda>img. VizParts (Some [text_part, image_part [] None]))\<rparr>"

definition last_image_env :: branch_env where
  "last_image_env =
     example_env\<lparr>enhance_call :=
       (\<lambda>img. VizParts (Some [text_part, image_part (js ''AAA'') (Some (js ''image/webp'')),
                              image_part (js ''BBB'') None, text_part]))\<rparr>"

text \<open>The texts of two extraction responses and a \<open>JSON.parse\<close> that knows them and
  the text of the sentinel box; the
  world of a target whose rasterization throws, and of one whose detector and enhancer
  calls throw; a request of three targets whose second target cannot be rasterized and
  whose branches settle in the order 2, 0, 1; a request of two targets which both fail.\<close>

definition three_targets_text :: jsstring where
  "three_targets_text =
     js ''['' @ [34] @ js ''Figure 1'' @ [34] @ js '','' @ [34] @ js ''Table 2'' @ [34]
       @ js '','' @ [34] @ js ''Figure 3'' @ [34] @ js '']''"

definition two_targets_text :: jsstring where
  "two_targets_text =
     js ''['' @ [34] @ js ''Figure 1'' @ [34] @ js '','' @ [34] @ js ''Table 2'' @ [34] @ js '']''"

definition targets_runtime :: runtime where
  "targets_runtime =
     \<lparr>JSON_parse =
        (\<lambda>s. if s = three_targets_text then
               Some (JArr [JStr (js ''Figure 1''), JStr (js ''Table 2''), JStr (js ''Figure 3'')])
             else if s = two_targets_text then
               Some (JArr [JStr (js ''Figure 1''), JStr (js ''Table 2'')])
             else if s = sentinel_text then
               Some (JObj [(js ''box_2d'', JArr [JNum (Fin 0), JNum (Fin 0), JNum (Fin 0), JNum (Fin 0)])])
             else None),
      ToString = example_ToString,
      ToNumber = example_ToNumber,
      round_double = Fin\<rparr>"

definition broken_env :: branch_env where
  "broken_env = example_env\<lparr>raster := (\<lambda>n. Inl ExternalError)\<rparr>"


definition three_world :: world where
  "three_world =
     \<lparr>randomUUID = js ''m-1'', now = 0,
      extract_response = Text (Some three_targets_text),
      branch = (\<lambda>i. if i = 1 then broken_env else example_env),
      settle_order = [2, 0, 1]\<rparr>"

definition failing_world :: world where
  "failing_world =
     \<lparr>randomUUID = js ''m-2'', now = 0,
      extract_response = Text (Some two_targets_text),
      branch = (\<lambda>i. broken_env),
      settle_order = [1, 0]\<rparr>"

definition example_paper :: paper where
  "example_paper =
     \<lparr>paper_id = js ''p1'', title = js ''A paper'', url = js ''blob:1'', fileName = js ''a.pdf''\<rparr>"

section \<open>Properties\<close>

subsection \<open>Matching\<close>

lemma exec_found: "rmatch r (Map.empty, s) \<noteq> [] \<Longrightarrow> exec r s \<noteq> None"
  by (cases s; cases "rmatch r (Map.empty, s)") auto

lemma test_at: "rmatch r (Map.empty, s) \<noteq> [] \<Longrightarrow> test r (pre @ s)"
proof (induction pre)
  case Nil
  then show ?case by (simp add: test_def exec_found)
next
  case (Cons x pre)
  then show ?case
    by (cases "rmatch r (Map.empty, x # pre @ s)") (auto simp: test_def)
qed

lemma in_SeqI:
  "st1 \<in> set (rmatch a st) \<Longrightarrow> st2 \<in> set (rmatch b st1) \<Longrightarrow> st2 \<in> set (rmatch (Seq a b) st)"
  by auto

lemma in_litI: "(cs, r) \<in> set (rmatch (lit n) (cs, n @ r))"
  by (induction n) auto

lemma in_star_clsI: "s \<in> set (star_cls k s)"
  by (cases s) auto

lemma star_cls_greedy: "list_all (in_cls k) ds \<Longrightarrow> \<exists>rest. star_cls k ds = [] # rest"
  by (induction ds) auto

lemma in_GroupI:
  "(cs', r) \<in> set (rmatch a (cs, s)) \<Longrightarrow>
   (cs'(n \<mapsto> take (length s - length r) s), r) \<in> set (rmatch (Group n a) (cs, s))"
  by force

lemma in_StarClsI: "in_cls k x \<Longrightarrow> (cs, r) \<in> set (rmatch (StarCls k) (cs, x # r))"
  by (simp add: in_star_clsI)

lemma caption_matches_fig:
  "rmatch (captionPattern lt N) (Map.empty, js ''Fig. '' @ N @ js '':'' @ post) \<noteq> []"
proof -
  let ?s = "js ''Fig. '' @ N @ js '':'' @ post"
  let ?r = "32 # N @ 58 # post"
  have "(Map.empty, ?r)
          \<in> set (rmatch (Alt (lit lt) (Seq (lit (js ''fig'')) (Opt (Chr 46)))) (Map.empty, ?s))"
    by (simp add: canon_def)
  from in_GroupI [OF this, of 1]
  obtain c where 1: "(c, ?r)
          \<in> set (rmatch (Group 1 (Alt (lit lt) (Seq (lit (js ''fig'')) (Opt (Chr 46))))) (Map.empty, ?s))"
    by blast
  have 2: "(c, N @ 58 # post) \<in> set (rmatch (StarCls Space) (c, ?r))"
    by (rule in_StarClsI) simp
  have 3: "(c, 58 # post) \<in> set (rmatch (lit N) (c, N @ 58 # post))"
    by (rule in_litI)
  have 4: "(c, post) \<in> set (rmatch (Cls (OneOf (js ''.:''))) (c, 58 # post))"
    by simp
  have "(c, post) \<in> set (rmatch (captionPattern lt N) (Map.empty, ?s))"
    unfolding captionPattern_def
    by (rule in_SeqI [OF 1 in_SeqI [OF 2 in_SeqI [OF 3 4]]])
  then show ?thesis by auto
qed

lemma loose_matches_fig:
  "rmatch (loosePattern lt N) (Map.empty, js ''Fig. '' @ N @ post) \<noteq> []"
proof -
  let ?s = "js ''Fig. '' @ N @ post"
  let ?r = "32 # N @ post"
  have "(Map.empty, ?r)
          \<in> set (rmatch (Alt (lit lt) (Seq (lit (js ''fig'')) (Opt (Chr 46)))) (Map.empty, ?s))"
    by (simp add: canon_def)
  from in_GroupI [OF this, of 1]
  obtain c where 1: "(c, ?r)
          \<in> set (rmatch (Group 1 (Alt (lit lt) (Seq (lit (js ''fig'')) (Opt (Chr 46))))) (Map.empty, ?s))"
    by blast
  have 2: "(c, N @ post) \<in> set (rmatch (StarCls Space) (c, ?r))"
    by (rule in_StarClsI) simp
  have 3: "(c, post) \<in> set (rmatch (lit N) (c, N @ post))"
    by (rule in_litI)
  have "(c, post) \<in> set (rmatch (loosePattern lt N) (Map.empty, ?s))"
    unfolding loosePattern_def
    by (rule in_SeqI [OF 1 in_SeqI [OF 2 3]])
  then show ?thesis by auto
qed

lemma query_table:
  assumes "N \<noteq> []" "list_all (in_cls Digit) N"
  shows "\<exists>m. exec queryPattern (js ''Table '' @ N) = Some m \<and> m 1 = Some (js ''Table'') \<and> m 2 = Some N"
proof -
  obtain d ds where N: "N = d # ds" using assms(1) by (cases N) auto
  have d: "in_cls Digit d" and ds: "list_all (in_cls Digit) ds" using assms(2) N by auto
  obtain rest where g: "star_cls Digit ds = [] # rest" using star_cls_greedy [OF ds] by blast
  have ns: "\<not> in_cls Space d" using d by auto
  show ?thesis
    using d ns g unfolding N queryPattern_def
    by (simp add: canon_def)
qed

subsection \<open>The scan loop\<close>

lemma drop_ConsD2:
  assumes "drop k xs = y # ys"
  shows "k < length xs" and "xs ! k = y" and "drop (Suc k) xs = ys"
proof -
  show "k < length xs" using assms by (cases "k < length xs") simp_all
  show "xs ! k = y" using assms by (rule nth_via_drop)
  have "drop (Suc k) xs = tl (drop k xs)" by (simp add: drop_Suc tl_drop)
  then show "drop (Suc k) xs = ys" using assms by simp
qed

lemma scanPages_readable:
  "1 \<le> i \<Longrightarrow> maxScan \<le> length pages \<Longrightarrow>
   drop (i - 1) (take maxScan pages) = map TextItems items \<Longrightarrow>
   scanPages cap loose pages maxScan i best
     = Inr (scan_texts cap loose i best (map join_space items))"
proof (induction items arbitrary: i best)
  case Nil
  then have "maxScan < i" by (auto simp: min_def split: if_splits)
  then show ?case by (subst scanPages.simps) simp
next
  case (Cons it items)
  have d: "drop (i - 1) (take maxScan pages) = TextItems it # map TextItems items"
    using Cons.prems(3) by simp
  note f = drop_ConsD2 [OF d]
  have i: "i \<le> maxScan" using f(1) Cons.prems(1) by auto
  have page: "getPage pages i = TextItems it"
    using f(1,2) i Cons.prems(1,2) by (simp add: getPage_def)
  have rest: "drop (Suc i - 1) (take maxScan pages) = map TextItems items"
    using f(3) Cons.prems(1) by simp
  have IH: "\<And>b. scanPages cap loose pages maxScan (Suc i) b
     = Inr (scan_texts cap loose (Suc i) b (map join_space items))"
    using Cons.IH [OF _ Cons.prems(2) rest] by simp
  show ?case
    using i page IH by (subst scanPages.simps) (simp add: foundStrict_def Let_def)
qed

lemma scanPages_throws:
  "1 \<le> i \<Longrightarrow> maxScan \<le> length pages \<Longrightarrow>
   drop (i - 1) (take maxScan pages) = map TextItems items @ TextThrows # rest \<Longrightarrow>
   \<forall>it \<in> set items. \<not> test cap (join_space it) \<Longrightarrow>
   scanPages cap loose pages maxScan i best = Inl ExternalError"
proof (induction items arbitrary: i best)
  case Nil
  have d: "drop (i - 1) (take maxScan pages) = TextThrows # rest"
    using Nil.prems(3) by simp
  note f = drop_ConsD2 [OF d]
  have i: "i \<le> maxScan" using f(1) Nil.prems(1) by auto
  have page: "getPage pages i = TextThrows"
    using f(1,2) i Nil.prems(1,2) by (simp add: getPage_def)
  show ?case using i page by (subst scanPages.simps) simp
next
  case (Cons it items)
  have d: "drop (i - 1) (take maxScan pages)
             = TextItems it # (map TextItems items @ TextThrows # rest)"
    using Cons.prems(3) by simp
  note f = drop_ConsD2 [OF d]
  have i: "i \<le> maxScan" using f(1) Cons.prems(1) by auto
  have page: "getPage pages i = TextItems it"
    using f(1,2) i Cons.prems(1,2) by (simp add: getPage_def)
  have rest: "drop (Suc i - 1) (take maxScan pages) = map TextItems items @ TextThrows # rest"
    using f(3) Cons.prems(1) by simp
  have IH: "\<And>b. scanPages cap loose pages maxScan (Suc i) b = Inl ExternalError"
    using Cons.IH [OF _ Cons.prems(2) rest] Cons.prems(4) by simp
  show ?case
    using i page IH Cons.prems(4) by (subst scanPages.simps) (simp add: foundStrict_def Let_def)
qed

lemma scan_texts_strict:
  "\<forall>x \<in> set pre. \<not> test cap x \<Longrightarrow> test cap t \<Longrightarrow>
   scan_texts cap loose i best (pre @ t # post) = i + length pre"
  by (induction pre arbitrary: i best) auto

lemma scan_texts_none:
  "\<forall>x \<in> set ts. \<not> test cap x \<and> \<not> test loose x \<Longrightarrow> scan_texts cap loose i best ts = best"
  by (induction ts arbitrary: i best) auto

lemma scan_texts_loose:
  "\<forall>x \<in> set (pre @ t # post). \<not> test cap x \<Longrightarrow> test loose t \<Longrightarrow>
   \<forall>x \<in> set post. \<not> test loose x \<Longrightarrow>
   scan_texts cap loose i best (pre @ t # post) = i + length pre"
  by (induction pre arbitrary: i best) (auto simp: scan_texts_none)

lemma scanPages_strict_prefix:
  "1 \<le> i \<Longrightarrow> maxScan \<le> length pages \<Longrightarrow>
   drop (i - 1) (take maxScan pages) = map TextItems items @ TextItems it # rest \<Longrightarrow>
   \<forall>x \<in> set items. \<not> test cap (join_space x) \<Longrightarrow> test cap (join_space it) \<Longrightarrow>
   scanPages cap loose pages maxScan i best = Inr (i + length items)"
proof (induction items arbitrary: i best)
  case Nil
  have d: "drop (i - 1) (take maxScan pages) = TextItems it # rest"
    using Nil.prems(3) by simp
  note f = drop_ConsD2 [OF d]
  have i: "i \<le> maxScan" using f(1) Nil.prems(1) by auto
  have page: "getPage pages i = TextItems it"
    using f(1,2) i Nil.prems(1,2) by (simp add: getPage_def)
  show ?case using i page Nil.prems(5) by (subst scanPages.simps) simp
next
  case (Cons x items)
  have d: "drop (i - 1) (take maxScan pages)
             = TextItems x # (map TextItems items @ TextItems it # rest)"
    using Cons.prems(3) by simp
  note f = drop_ConsD2 [OF d]
  have i: "i \<le> maxScan" using f(1) Cons.prems(1) by auto
  have page: "getPage pages i = TextItems x"
    using f(1,2) i Cons.prems(1,2) by (simp add: getPage_def)
  have rest: "drop (Suc i - 1) (take maxScan pages) = map TextItems items @ TextItems it # rest"
    using f(3) Cons.prems(1) by simp
  have IH: "\<And>b. scanPages cap loose pages maxScan (Suc i) b = Inr (Suc i + length items)"
    using Cons.IH [OF _ Cons.prems(2) rest] Cons.prems(4,5) by simp
  show ?case
    using i page IH Cons.prems(4) by (subst scanPages.simps) (simp add: foundStrict_def Let_def)
qed

lemma take_scan: "take (min (length pages) 30) pages = take 30 pages"
  by (simp add: min_def)

lemma findPageForQuery_matched:
  assumes "exec queryPattern q = Some m" "m 1 = Some g1" "m 2 = Some number"
    and "labelType = (if startsWith (toLowerCase g1) (js ''t'') then js ''table'' else js ''figure'')"
  shows "findPageForQuery True (Some pages) (JStr q)
         = (case scanPages (captionPattern labelType number) (loosePattern labelType number)
                   pages (min (length pages) 30) 1 1 of
              Inl e \<Rightarrow> Inr 1 | Inr page \<Rightarrow> Inr page)"
  using assms by (simp add: findPageForQuery_def Let_def)

lemma findPageForQuery_readable:
  assumes "exec queryPattern q = Some m" "m 1 = Some g1" "m 2 = Some number"
    and "labelType = (if startsWith (toLowerCase g1) (js ''t'') then js ''table'' else js ''figure'')"
    and "take 30 pages = map TextItems items"
  shows "findPageForQuery True (Some pages) (JStr q)
         = Inr (scan_texts (captionPattern labelType number) (loosePattern labelType number)
                  1 1 (map join_space items))"
proof -
  have "drop (1 - 1) (take (min (length pages) 30) pages) = map TextItems items"
    using assms(5) by (simp add: take_scan)
  from scanPages_readable [OF _ _ this]
  have "scanPages (captionPattern labelType number) (loosePattern labelType number)
          pages (min (length pages) 30) 1 1
        = Inr (scan_texts (captionPattern labelType number) (loosePattern labelType number)
                 1 1 (map join_space items))"
    by simp
  then show ?thesis
    by (simp add: findPageForQuery_matched [OF assms(1-4)])
qed

lemma query_Figure_1:
  "\<exists>m. exec queryPattern (js ''Figure 1'') = Some m \<and> m 1 = Some (js ''Figure'') \<and> m 2 = Some (js ''1'')"
  by (simp add: queryPattern_def canon_def)

lemma query_Table_3:
  "\<exists>m. exec queryPattern (js ''Table 3'') = Some m \<and> m 1 = Some (js ''Table'') \<and> m 2 = Some (js ''3'')"
  by (simp add: queryPattern_def canon_def)

lemma labelType_Figure:
  "js ''figure''
     = (if startsWith (toLowerCase (js ''Figure'')) (js ''t'') then js ''table'' else js ''figure'')"
  by (simp add: startsWith_def toLowerCase_def)

lemma labelType_Table:
  "js ''table''
     = (if startsWith (toLowerCase (js ''Table'')) (js ''t'') then js ''table'' else js ''figure'')"
  by (simp add: startsWith_def toLowerCase_def)

subsection \<open>Target Extractor\<close>

text \<open>
  C4. For every query, the empty one included, and every outcome of the extraction call,
  \<open>extractFigureTargets\<close> returns at least one identifier; when the call throws, or the
  text (or \<open>[]\<close> in place of an absent or empty text) does not parse, or parses to a value
  that is not an array, or to the empty array, the result is the list of the query alone,
  as it was given.
\<close>

theorem extractFigureTargets_fallback:
  "length (extractFigureTargets rt response query) \<ge> 1 \<and>
   (response = CallThrows
    \<or> (\<exists>t. response = Text t
          \<and> (JSON_parse rt (or_default t (js ''[]'')) = None
              \<or> (\<exists>v. JSON_parse rt (or_default t (js ''[]'')) = Some v \<and> (\<forall>xs. v \<noteq> JArr xs))
              \<or> JSON_parse rt (or_default t (js ''[]'')) = Some (JArr [])))
    \<longrightarrow> extractFigureTargets rt response query = [JStr query])"
  by (auto simp: extractFigureTargets_def Let_def Suc_le_eq
      split: gen_text.splits option.splits json.splits)

theorem extractFigureTargets_fallback_witness:
  "extractFigureTargets small_runtime (Text None) [] = [JStr []]
   \<and> extractFigureTargets small_runtime (Text (Some (js ''Figure 1''))) (js ''show it'')
       = [JStr (js ''show it'')]
   \<and> extractFigureTargets small_runtime CallThrows (js ''show it'') = [JStr (js ''show it'')]"
  using extractFigureTargets_fallback [of small_runtime "Text None" "[]"]
    extractFigureTargets_fallback [of small_runtime "Text (Some (js ''Figure 1''))" "js ''show it''"]
    extractFigureTargets_fallback [of small_runtime "CallThrows" "js ''show it''"]
  by (simp add: small_runtime_def sentinel_text_def or_default_def)

subsection \<open>Page Locator\<close>

text \<open>
  C5, as the code has it. Let the identifier match the shape (a label \<open>Figure\<close>,
  \<open>Fig\<close>, \<open>Fig.\<close> or \<open>Table\<close> and a number), the document load, and every one of its
  first 30 pages be readable; \<open>texts\<close> are the texts of those pages in order. Then
  \<open>findPageForQuery\<close> returns the first page whose text matches the strict caption
  pattern, if there is one: a loose match on an earlier page does not pre-empt it. If no
  scanned page matches the strict pattern, it returns the last scanned page that matches
  the loose pattern (each later loose match overwrites \<open>bestPage\<close>), and page 1 if none
  does. An identifier that does not match the shape yields page 1.
\<close>

theorem findPageForQuery_precedence:
  assumes "exec queryPattern q = Some m" "m 1 = Some g1" "m 2 = Some number"
    and "labelType = (if startsWith (toLowerCase g1) (js ''t'') then js ''table'' else js ''figure'')"
    and "take 30 pages = map TextItems items"
    and "texts = map join_space items"
    and "strict = test (captionPattern labelType number)"
    and "loose = test (loosePattern labelType number)"
  shows
    "(texts = pre @ t # post \<and> (\<forall>x \<in> set pre. \<not> strict x) \<and> strict t
        \<longrightarrow> findPageForQuery True (Some pages) (JStr q) = Inr (length pre + 1))
     \<and> ((\<forall>x \<in> set texts. \<not> strict x) \<and> texts = pre' @ t' # post' \<and> loose t'
          \<and> (\<forall>x \<in> set post'. \<not> loose x)
        \<longrightarrow> findPageForQuery True (Some pages) (JStr q) = Inr (length pre' + 1))
     \<and> ((\<forall>x \<in> set texts. \<not> strict x \<and> \<not> loose x)
        \<longrightarrow> findPageForQuery True (Some pages) (JStr q) = Inr 1)
     \<and> (exec queryPattern q' = None
        \<longrightarrow> findPageForQuery True (Some pages') (JStr q') = Inr 1)"
proof -
  note r = findPageForQuery_readable [OF assms(1-5)]
  have a: "texts = pre @ t # post \<and> (\<forall>x \<in> set pre. \<not> strict x) \<and> strict t
        \<longrightarrow> findPageForQuery True (Some pages) (JStr q) = Inr (length pre + 1)"
    using assms(6,7) by (simp add: r scan_texts_strict)
  have b: "(\<forall>x \<in> set texts. \<not> strict x) \<and> texts = pre' @ t' # post' \<and> loose t'
          \<and> (\<forall>x \<in> set post'. \<not> loose x)
        \<longrightarrow> findPageForQuery True (Some pages) (JStr q) = Inr (length pre' + 1)"
  proof (intro impI, elim conjE)
    assume ns: "\<forall>x \<in> set texts. \<not> strict x" and tx: "texts = pre' @ t' # post'"
      and lt: "loose t'" and nl: "\<forall>x \<in> set post'. \<not> loose x"
    have 1: "\<forall>x \<in> set (pre' @ t' # post'). \<not> test (captionPattern labelType number) x"
      using ns tx assms(7) by simp
    have 2: "test (loosePattern labelType number) t'" using lt assms(8) by simp
    have 3: "\<forall>x \<in> set post'. \<not> test (loosePattern labelType number) x"
      using nl assms(8) by simp
    have "map join_space items = pre' @ t' # post'" using tx assms(6) by simp
    then show "findPageForQuery True (Some pages) (JStr q) = Inr (length pre' + 1)"
      by (simp add: r scan_texts_loose [OF 1 2 3])
  qed
  have c: "(\<forall>x \<in> set texts. \<not> strict x \<and> \<not> loose x)
        \<longrightarrow> findPageForQuery True (Some pages) (JStr q) = Inr 1"
    using assms(6,7,8) by (simp add: r scan_texts_none)
  have d: "exec queryPattern q' = None
        \<longrightarrow> findPageForQuery True (Some pages') (JStr q') = Inr 1"
    by (simp add: findPageForQuery_def)
  from a b c d show ?thesis by blast
qed

text \<open>The claim as stated fails: with a loose match on pages 2 and 3 and no strict
  match, the first loose page is 2 and the function returns 3.\<close>

theorem findPageForQuery_last_loose_counterexample:
  "findPageForQuery True (Some loose_twice) (JStr (js ''Figure 1'')) = Inr 3
   \<and> test (loosePattern (js ''figure'') (js ''1'')) (join_space [js ''see'', js ''Figure 1 here''])
   \<and> \<not> test (captionPattern (js ''figure'') (js ''1'')) (join_space [js ''Introduction''])
   \<and> \<not> test (captionPattern (js ''figure'') (js ''1'')) (join_space [js ''see'', js ''Figure 1 here''])
   \<and> \<not> test (captionPattern (js ''figure'') (js ''1'')) (join_space [js ''as Figure 1 shows''])"
  by (simp add: findPageForQuery_def loose_twice_def queryPattern_def canon_def
      startsWith_def toLowerCase_def Let_def scanPages.simps getPage_def foundStrict_def
      test_def captionPattern_def loosePattern_def)

theorem findPageForQuery_precedence_witness:
  "findPageForQuery True (Some loose_then_strict) (JStr (js ''Figure 1'')) = Inr 5
   \<and> test (loosePattern (js ''figure'') (js ''1'')) (js ''see Figure 1'')"
proof -
  obtain m where m: "exec queryPattern (js ''Figure 1'') = Some m"
      "m 1 = Some (js ''Figure'')" "m 2 = Some (js ''1'')"
    using query_Figure_1 by blast
  have pg: "take 30 loose_then_strict
      = map TextItems [[js ''Title''], [js ''see Figure 1''], [js ''Methods''],
          [js ''Results''], [js ''Figure 1: a plot'']]"
    by (simp add: loose_then_strict_def)
  note th = findPageForQuery_precedence [OF m labelType_Figure pg refl refl refl,
      where pre = "[js ''Title'', js ''see Figure 1'', js ''Methods'', js ''Results'']"
        and t = "js ''Figure 1: a plot''" and post = "[]", THEN conjunct1]
  have ante: "map join_space [[js ''Title''], [js ''see Figure 1''], [js ''Methods''],
          [js ''Results''], [js ''Figure 1: a plot'']]
        = [js ''Title'', js ''see Figure 1'', js ''Methods'', js ''Results''] @ js ''Figure 1: a plot'' # []
      \<and> (\<forall>x \<in> set [js ''Title'', js ''see Figure 1'', js ''Methods'', js ''Results''].
            \<not> test (captionPattern (js ''figure'') (js ''1'')) x)
      \<and> test (captionPattern (js ''figure'') (js ''1'')) (js ''Figure 1: a plot'')"
    by (simp add: test_def captionPattern_def canon_def)
  have 1: "findPageForQuery True (Some loose_then_strict) (JStr (js ''Figure 1'')) = Inr 5"
    using th ante by simp
  have 2: "test (loosePattern (js ''figure'') (js ''1'')) (js ''see Figure 1'')"
    by (simp add: test_def loosePattern_def canon_def)
  from 1 2 show ?thesis by simp
qed

text \<open>
  C7, as the code has it. When the extraction of a scanned page throws before any page
  has matched the strict pattern, \<open>findPageForQuery\<close> returns page 1, whether or not an
  earlier page matched the loose pattern: the \<open>catch\<close> block only logs, and \<open>bestPage\<close>
  is lost with the \<open>try\<close> block.
\<close>

theorem findPageForQuery_error_resets:
  assumes "exec queryPattern q = Some m" "m 1 = Some g1" "m 2 = Some number"
    and "labelType = (if startsWith (toLowerCase g1) (js ''t'') then js ''table'' else js ''figure'')"
    and "take 30 pages = map TextItems items @ TextThrows # rest"
    and "\<forall>it \<in> set items. \<not> test (captionPattern labelType number) (join_space it)"
  shows "findPageForQuery True (Some pages) (JStr q) = Inr 1"
proof -
  have "drop (1 - 1) (take (min (length pages) 30) pages) = map TextItems items @ TextThrows # rest"
    using assms(5) by (simp add: take_scan)
  from scanPages_throws [OF _ _ this assms(6)]
  have "scanPages (captionPattern labelType number) (loosePattern labelType number)
          pages (min (length pages) 30) 1 1 = Inl ExternalError"
    by simp
  then show ?thesis
    by (simp add: findPageForQuery_matched [OF assms(1-4)])
qed

text \<open>The claim as stated fails: page 2 is recorded as the loose candidate, the
  extraction of page 3 throws, and the function returns 1.\<close>

theorem findPageForQuery_error_counterexample:
  "findPageForQuery True (Some loose_then_throws) (JStr (js ''Figure 1'')) = Inr 1
   \<and> test (loosePattern (js ''figure'') (js ''1'')) (join_space [js ''see'', js ''Figure 1 here''])
   \<and> getPage loose_then_throws 3 = TextThrows"
  by (simp add: findPageForQuery_def loose_then_throws_def queryPattern_def canon_def
      startsWith_def toLowerCase_def Let_def scanPages.simps getPage_def foundStrict_def
      test_def captionPattern_def loosePattern_def)

theorem findPageForQuery_error_resets_witness:
  "findPageForQuery True (Some tables_then_throws) (JStr (js ''Table 3'')) = Inr 1
   \<and> test (loosePattern (js ''table'') (js ''3'')) (js ''table 3 again'')"
proof -
  obtain m where m: "exec queryPattern (js ''Table 3'') = Some m"
      "m 1 = Some (js ''Table'')" "m 2 = Some (js ''3'')"
    using query_Table_3 by blast
  have pg: "take 30 tables_then_throws
      = map TextItems [[js ''Title''], [js ''see Table 3''], [js ''table 3 again'']]
          @ TextThrows # [TextItems [js ''Table 3. Results'']]"
    by (simp add: tables_then_throws_def)
  have ns: "\<forall>it \<in> set [[js ''Title''], [js ''see Table 3''], [js ''table 3 again'']].
      \<not> test (captionPattern (js ''table'') (js ''3'')) (join_space it)"
    by (simp add: test_def captionPattern_def canon_def)
  have 1: "findPageForQuery True (Some tables_then_throws) (JStr (js ''Table 3'')) = Inr 1"
    by (rule findPageForQuery_error_resets [OF m labelType_Table pg ns])
  have 2: "test (loosePattern (js ''table'') (js ''3'')) (js ''table 3 again'')"
    by (simp add: test_def loosePattern_def canon_def)
  from 1 2 show ?thesis by simp
qed

text \<open>
  C10. For an identifier \<open>Table N\<close>, with \<open>N\<close> a number, a page whose text contains
  \<open>Fig. N:\<close> satisfies the strict caption pattern built for the identifier, and the
  loose one, whatever else the page contains; and when it is among the first 30 pages, the pages before it
  are readable and none of them matches the strict pattern, \<open>findPageForQuery\<close> returns
  it.
\<close>

theorem table_identifier_accepts_fig_caption:
  assumes "N \<noteq> []" "list_all (in_cls Digit) N"
    and "take 30 pages = map TextItems items @ TextItems it # rest"
    and "join_space it = a @ js ''Fig. '' @ N @ js '':'' @ b"
    and "\<forall>x \<in> set items. \<not> test (captionPattern (js ''table'') N) (join_space x)"
  shows "test (captionPattern (js ''table'') N) (join_space it)
         \<and> test (loosePattern (js ''table'') N) (join_space it)
         \<and> findPageForQuery True (Some pages) (JStr (js ''Table '' @ N)) = Inr (length items + 1)"
proof -
  have strict: "test (captionPattern (js ''table'') N) (join_space it)"
    unfolding assms(4) by (rule test_at) (rule caption_matches_fig)
  have loose: "test (loosePattern (js ''table'') N) (join_space it)"
    unfolding assms(4) by (rule test_at) (rule loose_matches_fig)
  obtain m where m: "exec queryPattern (js ''Table '' @ N) = Some m"
      "m 1 = Some (js ''Table'')" "m 2 = Some N"
    using query_table [OF assms(1,2)] by blast
  have lt: "js ''table''
      = (if startsWith (toLowerCase (js ''Table'')) (js ''t'') then js ''table'' else js ''figure'')"
    by (simp add: startsWith_def toLowerCase_def)
  have "drop (1 - 1) (take (min (length pages) 30) pages)
          = map TextItems items @ TextItems it # rest"
    using assms(3) by (simp add: take_scan)
  from scanPages_strict_prefix [OF _ _ this assms(5) strict]
  have "scanPages (captionPattern (js ''table'') N) (loosePattern (js ''table'') N)
          pages (min (length pages) 30) 1 1 = Inr (1 + length items)"
    by simp
  then have "findPageForQuery True (Some pages) (JStr (js ''Table '' @ N)) = Inr (length items + 1)"
    by (subst findPageForQuery_matched [OF m lt]) simp
  with strict loose show ?thesis by simp
qed

theorem table_identifier_accepts_fig_caption_witness:
  "test (captionPattern (js ''table'') (js ''2'')) (js ''Fig. 2: a plot'')
   \<and> test (loosePattern (js ''table'') (js ''2'')) (js ''Fig. 2: a plot'')
   \<and> findPageForQuery True (Some fig_caption_doc) (JStr (js ''Table 2'')) = Inr 2"
proof -
  have n: "js ''2'' \<noteq> []" "list_all (in_cls Digit) (js ''2'')" by simp_all
  have pg: "take 30 fig_caption_doc
      = map TextItems [[js ''Title'']] @ TextItems [js ''Fig. 2: a plot''] # [TextThrows]"
    by (simp add: fig_caption_doc_def)
  have tx: "join_space [js ''Fig. 2: a plot''] = [] @ js ''Fig. '' @ js ''2'' @ js '':'' @ js '' a plot''"
    by simp
  have ns: "\<forall>x \<in> set [[js ''Title'']]. \<not> test (captionPattern (js ''table'') (js ''2'')) (join_space x)"
    by (simp add: test_def captionPattern_def canon_def)
  from table_identifier_accepts_fig_caption [OF n pg tx ns]
  show ?thesis by simp
qed

subsection \<open>Enhancer\<close>

lemma enhance_part_no_image: "\<not> has_inline_image p \<Longrightarrow> enhance_part u p = u"
  by (auto simp: has_inline_image_def enhance_part_def split: option.splits)

lemma foldl_enhance_part_no_image:
  "\<forall>p \<in> set ps. \<not> has_inline_image p \<Longrightarrow> foldl enhance_part u ps = u"
  by (induction ps arbitrary: u) (simp_all add: enhance_part_no_image)

lemma enhance_part_image:
  "inlineData p = Some b \<Longrightarrow> blob_data b = Some d \<Longrightarrow> d \<noteq> [] \<Longrightarrow>
   enhance_part u p = js ''data:'' @ or_default (blob_mimeType b) (js ''image/png'') @ js '';base64,'' @ d"
  by (simp add: enhance_part_def)

text \<open>
  C8, as the code has it. The enhancer is called once, with the image it is given. When
  the response has parts with inline image data, the output is the data URL of the last
  such part (the loop has no \<open>break\<close>, so each later image part overwrites
  \<open>finalImageUrl\<close>), with \<open>image/png\<close> for a missing MIME type. When the call throws, or
  the response has no parts or no part with inline image data, the output is the JPEG data
  URL of the input image, unmodified.
\<close>

theorem enhance_last_image_part:
  "fst (enhance e img) = [CallEnhance img]
   \<and> (enhance_call e img = VizParts (Some (before @ p # after))
        \<and> inlineData p = Some b \<and> blob_data b = Some d \<and> d \<noteq> []
        \<and> (\<forall>x \<in> set after. \<not> has_inline_image x)
       \<longrightarrow> snd (enhance e img)
             = js ''data:'' @ or_default (blob_mimeType b) (js ''image/png'') @ js '';base64,'' @ d)
   \<and> (enhance_call e img = VizThrows \<or> enhance_call e img = VizParts None
        \<or> (\<exists>parts. enhance_call e img = VizParts (Some parts)
              \<and> (\<forall>x \<in> set parts. \<not> has_inline_image x))
       \<longrightarrow> snd (enhance e img) = js ''data:image/jpeg;base64,'' @ img)"
proof -
  have 1: "fst (enhance e img) = [CallEnhance img]"
    by (simp add: enhance_def Let_def)
  have 2: "enhance_call e img = VizParts (Some (before @ p # after))
        \<and> inlineData p = Some b \<and> blob_data b = Some d \<and> d \<noteq> []
        \<and> (\<forall>x \<in> set after. \<not> has_inline_image x)
       \<longrightarrow> snd (enhance e img)
             = js ''data:'' @ or_default (blob_mimeType b) (js ''image/png'') @ js '';base64,'' @ d"
    by (simp add: enhance_def Let_def foldl_enhance_part_no_image enhance_part_image)
  have 3: "enhance_call e img = VizThrows \<or> enhance_call e img = VizParts None
        \<or> (\<exists>parts. enhance_call e img = VizParts (Some parts)
              \<and> (\<forall>x \<in> set parts. \<not> has_inline_image x))
       \<longrightarrow> snd (enhance e img) = js ''data:image/jpeg;base64,'' @ img"
    by (auto simp: enhance_def Let_def foldl_enhance_part_no_image)
  from 1 2 3 show ?thesis by blast
qed

text \<open>The claim as stated fails: of two parts with inline image data, the output is the
  second.\<close>

theorem enhance_first_image_counterexample:
  "enhance_call example_env (js ''CROP'')
     = VizParts (Some [image_part (js ''AAA'') (Some (js ''image/webp'')), image_part (js ''BBB'') None])
   \<and> has_inline_image (image_part (js ''AAA'') (Some (js ''image/webp'')))
   \<and> has_inline_image (image_part (js ''BBB'') None)
   \<and> snd (enhance example_env (js ''CROP'')) = js ''data:image/png;base64,BBB''"
  by (simp add: example_env_def enhance_def enhance_part_def image_part_def has_inline_image_def
      or_default_def)

theorem enhance_last_image_part_witness:
  "snd (enhance last_image_env (js ''CROP'')) = js ''data:image/png;base64,BBB''
   \<and> snd (enhance no_image_env (js ''CROP'')) = js ''data:image/jpeg;base64,CROP''"
proof -
  have 1: "snd (enhance last_image_env (js ''CROP'')) = js ''data:image/png;base64,BBB''"
    using enhance_last_image_part [of last_image_env "js ''CROP''"
        "[text_part, image_part (js ''AAA'') (Some (js ''image/webp''))]"
        "image_part (js ''BBB'') None" "[text_part]"
        "\<lparr>blob_data = Some (js ''BBB''), blob_mimeType = None\<rparr>" "js ''BBB''"]
    by (simp add: last_image_env_def image_part_def text_part_def has_inline_image_def or_default_def)
  have 2: "snd (enhance no_image_env (js ''CROP'')) = js ''data:image/jpeg;base64,CROP''"
    using enhance_last_image_part [of no_image_env "js ''CROP''"]
    by (simp add: no_image_env_def image_part_def text_part_def has_inline_image_def)
  from 1 2 show ?thesis by simp
qed

subsection \<open>Cropper\<close>

lemma num_at_number:
  assumes "\<forall>v \<in> set box. \<exists>n. v = JNum n"
  shows "\<exists>n. num_at rt box i = Some n"
proof (cases "i < length box")
  case True
  then have "box ! i \<in> set box" by (rule nth_mem)
  then obtain n where "box ! i = JNum n" using assms by blast
  then show ?thesis using True by (simp add: num_at_def to_number_def)
next
  case False
  then show ?thesis by (simp add: num_at_def)
qed

lemma box_ratios_numbers:
  assumes "\<forall>v \<in> set box. \<exists>n. v = JNum n"
  shows "box_ratios rt box \<noteq> None"
proof -
  obtain a b c d where "num_at rt box 0 = Some a" "num_at rt box 1 = Some b"
      "num_at rt box 2 = Some c" "num_at rt box 3 = Some d"
    using num_at_number [OF assms, of rt] by metis
  then show ?thesis by (simp add: box_ratios_def minus_at_def)
qed

lemma checked_box_ratios: "check_box rt box = Inr g \<Longrightarrow> box_ratios rt box \<noteq> None"
  by (auto simp: check_box_def box_size_def box_ratios_def minus_at_def split: option.splits)

lemma cropImage_settles: "box_ratios rt box \<noteq> None \<Longrightarrow> \<exists>out. cropImage rt e img box = Some (Inr out)"
  by (auto simp: cropImage_def split: img_event.splits)

text \<open>
  C9. The promise of \<open>cropImage\<close> is never rejected, and it is resolved for every box
  whose elements convert to numbers: every box of numbers, and every box that passed the
  validation gates, which are the boxes that the service passes to it. It resolves with
  the input image when the image fails to decode, when the normalized width \<open>rW\<close> or
  height \<open>rH\<close> of the box is at most 0, and when no drawing context is available.
  Otherwise it resolves with what the canvas extracts for the source rectangle at
  \<open>x = width * rX\<close>, \<open>y = height * rY\<close> of width \<open>width * rW\<close> and height
  \<open>height * rH\<close>, where \<open>width\<close> and \<open>height\<close> are the pixel dimensions of the
  decoded image. All quantities are the doubles that the code computes, each operation
  rounded: for a box of finite numbers \<open>rY = ymin / 1000\<close>, \<open>rX = xmin / 1000\<close>,
  \<open>rH = (ymax - ymin) / 1000\<close> and \<open>rW = (xmax - xmin) / 1000\<close> (last conjunct).
\<close>

theorem cropImage_total:
  "cropImage rt e img box \<noteq> Some (Inl err)
   \<and> ((\<forall>v \<in> set box. \<exists>n. v = JNum n) \<or> check_box rt box = Inr g
       \<longrightarrow> box_ratios rt box \<noteq> None)
   \<and> (box_ratios rt box \<noteq> None \<or> image_load e img = OnError
       \<longrightarrow> (\<exists>out. cropImage rt e img box = Some (Inr out)))
   \<and> (image_load e img = OnError \<longrightarrow> cropImage rt e img box = Some (Inr img))
   \<and> (image_load e img = OnLoad width height \<and> box_ratios rt box = Some (rY, rX, rH, rW)
        \<and> (js_le rW (Fin 0) \<or> js_le rH (Fin 0) \<or> \<not> crop_context e)
       \<longrightarrow> cropImage rt e img box = Some (Inr img))
   \<and> (image_load e img = OnLoad width height \<and> box_ratios rt box = Some (rY, rX, rH, rW)
        \<and> \<not> js_le rW (Fin 0) \<and> \<not> js_le rH (Fin 0) \<and> crop_context e
       \<longrightarrow> cropImage rt e img box
             = Some (Inr (crop_jpeg e img
                 (js_times_dim rt width rX, js_times_dim rt height rY,
                  js_times_dim rt width rW, js_times_dim rt height rH))))
   \<and> (box = [JNum (Fin ymin), JNum (Fin xmin), JNum (Fin ymax), JNum (Fin xmax)]
       \<longrightarrow> box_ratios rt box
             = Some (fl rt (ymin / 1000), fl rt (xmin / 1000),
                     js_div_pos rt (fl rt (ymax - ymin)) 1000,
                     js_div_pos rt (fl rt (xmax - xmin)) 1000))"
proof -
  have 1: "cropImage rt e img box \<noteq> Some (Inl err)"
    by (auto simp: cropImage_def split: img_event.splits option.splits)
  have 2: "(\<forall>v \<in> set box. \<exists>n. v = JNum n) \<or> check_box rt box = Inr g
       \<longrightarrow> box_ratios rt box \<noteq> None"
    using checked_box_ratios [of rt box g] box_ratios_numbers [of box rt]
    by blast
  have 3: "box_ratios rt box \<noteq> None \<or> image_load e img = OnError
       \<longrightarrow> (\<exists>out. cropImage rt e img box = Some (Inr out))"
    using cropImage_settles [of rt box e img] by (auto simp: cropImage_def)
  have 4: "image_load e img = OnError \<longrightarrow> cropImage rt e img box = Some (Inr img)"
    by (simp add: cropImage_def)
  have 5: "image_load e img = OnLoad width height \<and> box_ratios rt box = Some (rY, rX, rH, rW)
        \<and> (js_le rW (Fin 0) \<or> js_le rH (Fin 0) \<or> \<not> crop_context e)
       \<longrightarrow> cropImage rt e img box = Some (Inr img)"
    by (auto simp: cropImage_def)
  have 6: "image_load e img = OnLoad width height \<and> box_ratios rt box = Some (rY, rX, rH, rW)
        \<and> \<not> js_le rW (Fin 0) \<and> \<not> js_le rH (Fin 0) \<and> crop_context e
       \<longrightarrow> cropImage rt e img box
             = Some (Inr (crop_jpeg e img
                 (js_times_dim rt width rX, js_times_dim rt height rY,
                  js_times_dim rt width rW, js_times_dim rt height rH)))"
    by (auto simp: cropImage_def)
  have 7: "box = [JNum (Fin ymin), JNum (Fin xmin), JNum (Fin ymax), JNum (Fin xmax)]
       \<longrightarrow> box_ratios rt box
             = Some (fl rt (ymin / 1000), fl rt (xmin / 1000),
                     js_div_pos rt (fl rt (ymax - ymin)) 1000,
                     js_div_pos rt (fl rt (xmax - xmin)) 1000)"
    by (simp add: box_ratios_def minus_at_def num_at_def to_number_def)
  from 1 2 3 4 5 6 7 show ?thesis by (intro conjI)
qed

theorem cropImage_total_witness:
  "cropImage small_runtime example_env (js ''PAGE'')
       [JNum (Fin 125), JNum (Fin 250), JNum (Fin 625), JNum (Fin 750)]
     = Some (Inr (js ''CROP''))
   \<and> cropImage small_runtime example_env (js ''PAGE'')
       [JNum (Fin 125), JNum (Fin 250), JNum (Fin 625), JNum (Fin 250)]
     = Some (Inr (js ''PAGE''))
   \<and> cropImage small_runtime (example_env\<lparr>crop_context := False\<rparr>) (js ''PAGE'')
       [JNum (Fin 125), JNum (Fin 250), JNum (Fin 625), JNum (Fin 750)]
     = Some (Inr (js ''PAGE''))
   \<and> cropImage small_runtime (example_env\<lparr>image_load := \<lambda>img. OnError\<rparr>) (js ''PAGE'')
       [JNum (Fin 125), JNum (Fin 250), JNum (Fin 625), JNum (Fin 750)]
     = Some (Inr (js ''PAGE''))
   \<and> (\<exists>out. cropImage small_runtime example_env (js ''PAGE'')
       [JNum (Fin 125), JNum (Fin 250), JNum (Fin 625), JNum (Fin 750)] = Some (Inr out))"
proof -
  let ?box = "[JNum (Fin 125), JNum (Fin 250), JNum (Fin 625), JNum (Fin 750)]"
  let ?flat = "[JNum (Fin 125), JNum (Fin 250), JNum (Fin 625), JNum (Fin 250)]"
  let ?nc = "example_env\<lparr>crop_context := False\<rparr>"
  let ?ne = "example_env\<lparr>image_load := \<lambda>img. OnError\<rparr>"
  have fl: "fl small_runtime r = Fin r" for r
    by (simp add: fl_def small_runtime_def)
  have ld: "image_load example_env (js ''PAGE'') = OnLoad 200 100"
    "image_load ?nc (js ''PAGE'') = OnLoad 200 100"
    "image_load ?ne (js ''PAGE'') = OnError"
    by (simp_all add: example_env_def)
  have cx: "crop_context example_env" "\<not> crop_context ?nc"
    by (simp_all add: example_env_def)
  have rb: "box_ratios small_runtime ?box = Some (Fin (1 / 8), Fin (1 / 4), Fin (1 / 2), Fin (1 / 2))"
    using cropImage_total [of small_runtime example_env "js ''PAGE''" ?box TypeError Accepted
        200 100 NaN NaN NaN NaN 125 250 625 750,
        THEN conjunct2, THEN conjunct2, THEN conjunct2, THEN conjunct2, THEN conjunct2,
        THEN conjunct2]
    by (simp add: fl)
  have rf: "box_ratios small_runtime ?flat = Some (Fin (1 / 8), Fin (1 / 4), Fin (1 / 2), Fin 0)"
    using cropImage_total [of small_runtime example_env "js ''PAGE''" ?flat TypeError Accepted
        200 100 NaN NaN NaN NaN 125 250 625 250,
        THEN conjunct2, THEN conjunct2, THEN conjunct2, THEN conjunct2, THEN conjunct2,
        THEN conjunct2]
    by (simp add: fl)
  have 1: "cropImage small_runtime example_env (js ''PAGE'') ?box = Some (Inr (js ''CROP''))"
    using cropImage_total [of small_runtime example_env "js ''PAGE''" ?box TypeError Accepted
        200 100 "Fin (1 / 8)" "Fin (1 / 4)" "Fin (1 / 2)" "Fin (1 / 2)" 125 250 625 750,
        THEN conjunct2, THEN conjunct2, THEN conjunct2, THEN conjunct2, THEN conjunct2,
        THEN conjunct1] ld(1) cx(1) rb
    by (simp add: fl) (simp add: example_env_def)
  have 2: "cropImage small_runtime example_env (js ''PAGE'') ?flat = Some (Inr (js ''PAGE''))"
    using cropImage_total [of small_runtime example_env "js ''PAGE''" ?flat TypeError Accepted
        200 100 "Fin (1 / 8)" "Fin (1 / 4)" "Fin (1 / 2)" "Fin 0" 125 250 625 250,
        THEN conjunct2, THEN conjunct2, THEN conjunct2, THEN conjunct2,
        THEN conjunct1] ld(1) rf
    by simp
  have rb': "box_ratios small_runtime ?box \<noteq> None" using rb by simp
  have 3: "cropImage small_runtime ?nc (js ''PAGE'') ?box = Some (Inr (js ''PAGE''))"
    using cropImage_total [of small_runtime ?nc "js ''PAGE''" ?box TypeError Accepted
        200 100 "Fin (1 / 8)" "Fin (1 / 4)" "Fin (1 / 2)" "Fin (1 / 2)" 125 250 625 750,
        THEN conjunct2, THEN conjunct2, THEN conjunct2, THEN conjunct2,
        THEN conjunct1] ld(2) cx(2) rb
    by simp
  have 4: "cropImage small_runtime ?ne (js ''PAGE'') ?box = Some (Inr (js ''PAGE''))"
    using cropImage_total [of small_runtime ?ne "js ''PAGE''" ?box TypeError Accepted
        200 100 NaN NaN NaN NaN 125 250 625 750,
        THEN conjunct2, THEN conjunct2, THEN conjunct2, THEN conjunct1] ld(3)
    by simp
  have nb: "\<forall>v \<in> set ?box. \<exists>n. v = JNum n" by simp
  have 5: "\<exists>out. cropImage small_runtime example_env (js ''PAGE'') ?box = Some (Inr out)"
    using cropImage_total [of small_runtime example_env "js ''PAGE''" ?box TypeError Accepted
        200 100 NaN NaN NaN NaN 125 250 625 750] nb
    by simp
  from 1 2 3 4 5 show ?thesis by (intro conjI)
qed

subsection \<open>Region Detector\<close>

lemma findPageForQuery_Inr_string:
  "findPageForQuery True doc target = Inr n \<Longrightarrow> \<exists>q. target = JStr q"
  by (cases target) (simp_all add: findPageForQuery_def)

lemma renderPageAsImage_Inr: "renderPageAsImage pdfjs r n = Inr page \<Longrightarrow> pdfjs"
  by (cases pdfjs) (simp_all add: renderPageAsImage_def)

lemma located_target_string:
  assumes "findPageForQuery (pdfjsLib e) (locate_doc e) target = Inr pageNum"
    and "renderPageAsImage (pdfjsLib e) (raster e) pageNum = Inr page"
  shows "\<exists>q. target = JStr q \<and> to_string rt target = Some q"
proof -
  have "pdfjsLib e" using assms(2) by (rule renderPageAsImage_Inr)
  then have "findPageForQuery True (locate_doc e) target = Inr pageNum"
    using assms(1) by simp
  then obtain q where "target = JStr q"
    by (rule findPageForQuery_Inr_string [THEN exE])
  then show ?thesis by (simp add: to_string_def)
qed

lemma check_box_rejected:
  "box_size rt b = None \<or> (\<exists>h w. box_size rt b = Some (h, w) \<and> fails_gate h w) \<Longrightarrow>
   check_box rt b \<noteq> Inr Accepted"
  by (auto simp: check_box_def fails_gate_def split: if_splits)

lemma detectAndCrop_no_box:
  "to_string rt target = Some name \<Longrightarrow> detected_box rt (detect_call e page) = None \<Longrightarrow>
   detectAndCrop rt e target page = ([CallDetect page], Some (Inr page))"
  by (auto simp: detected_box_def detectAndCrop_def Let_def
      split: gen_text.splits option.splits sum.splits)

lemma detectAndCrop_gate:
  assumes "to_string rt target = Some name"
    and "detected_box rt (detect_call e page) = Some b"
    and "check_box rt b \<noteq> Inr Accepted"
  shows "detectAndCrop rt e target page = ([CallDetect page], Some (Inr page))"
proof -
  obtain t j v where r: "detect_call e page = Text t"
      "JSON_parse rt (cleanFences (or_default t (js ''{}''))) = Some j"
      "get_box_2d j = Inr v" "box_of v = Some b"
    using assms(2)
    by (auto simp: detected_box_def split: gen_text.splits option.splits sum.splits)
  show ?thesis
    using assms(1,3) r
    by (cases "check_box rt b")
      (auto simp: detectAndCrop_def Let_def split: gate.splits)
qed

lemma sentinel_fails:
  "box_size rt [JNum (Fin 0), JNum (Fin 0), JNum (Fin 0), JNum (Fin 0)] = Some (Fin 0, Fin 0)"
  by (simp add: box_size_def minus_at_def num_at_def to_number_def fl_def)

lemma locate_example: "findPageForQuery True (Some loose_then_strict) (JStr (js ''Figure 1'')) = Inr 5"
  by (simp add: findPageForQuery_def loose_then_strict_def queryPattern_def canon_def
      startsWith_def toLowerCase_def Let_def scanPages.simps getPage_def foundStrict_def
      test_def captionPattern_def loosePattern_def)

lemma sentinel_detected:
  "detected_box small_runtime (Text (Some sentinel_text))
     = Some [JNum (Fin 0), JNum (Fin 0), JNum (Fin 0), JNum (Fin 0)]"
  by (simp add: detected_box_def small_runtime_def sentinel_text_def or_default_def
      cleanFences_def startsWith_def get_box_2d_def box_of_def)

lemma prose_not_detected:
  "detected_box small_runtime (Text (Some (js ''no figure''))) = None"
  by (simp add: detected_box_def small_runtime_def sentinel_text_def or_default_def
      cleanFences_def startsWith_def)

lemma example_located:
  "findPageForQuery (pdfjsLib example_env) (locate_doc example_env) (JStr (js ''Figure 1'')) = Inr 5"
  using locate_example by (simp add: example_env_def)

lemma example_rendered:
  "renderPageAsImage (pdfjsLib example_env) (raster example_env) 5 = Inr (js ''PAGE5'')"
  by (simp add: renderPageAsImage_def example_env_def)

lemma enhance_example:
  "enhance example_env img = ([CallEnhance img], js ''data:image/png;base64,BBB'')"
  by (simp add: enhance_def example_env_def enhance_part_def image_part_def or_default_def)

text \<open>
  C3. Let the page be located and rasterized. If the detector response \<open>d page\<close>
  contains no box of four elements (the call throws, the text does not parse, \<open>box_2d\<close>
  is absent or not an array of length 4), or the conversion of an element of its box to a
  number throws, or the height \<open>h = y2 - y1\<close> and the width \<open>w = x2 - x1\<close> of its box,
  the doubles that the code computes, fail a validation gate (\<open>h \<le> 0\<close> or \<open>w \<le> 0\<close>,
  or \<open>h < 20\<close>, or \<open>h > 950\<close> and \<open>w > 950\<close>), then the calls of the target are the
  detector call and the enhancer call, both on the page image: \<open>cropImage\<close> is not
  invoked and the enhancer receives the full-page raster. The result is the same for all
  such responses. The sentinel box \<open>[0,0,0,0]\<close> has height and width 0 and fails the
  first gate (last two conjuncts).
\<close>

theorem rejected_box_keeps_page:
  assumes "findPageForQuery (pdfjsLib e) (locate_doc e) target = Inr pageNum"
    and "renderPageAsImage (pdfjsLib e) (raster e) pageNum = Inr page"
    and "detected_box rt (d page) = None
         \<or> (\<exists>b. detected_box rt (d page) = Some b
               \<and> (box_size rt b = None
                   \<or> (\<exists>h w. box_size rt b = Some (h, w) \<and> fails_gate h w)))"
  shows "processSingleFigure_calls rt (e\<lparr>detect_call := d\<rparr>) target
           = [CallDetect page, CallEnhance page]
         \<and> processSingleFigure rt (e\<lparr>detect_call := d\<rparr>) target
           = Some (Inr \<lparr>imageUrl = snd (enhance e page), label = target, error = None\<rparr>)
         \<and> box_size rt [JNum (Fin 0), JNum (Fin 0), JNum (Fin 0), JNum (Fin 0)]
           = Some (Fin 0, Fin 0)
         \<and> fails_gate (Fin 0) (Fin 0)"
proof -
  let ?e = "e\<lparr>detect_call := d\<rparr>"
  obtain q where q: "to_string rt target = Some q"
    using located_target_string [OF assms(1,2)] by blast
  have dc: "detectAndCrop rt ?e target page = ([CallDetect page], Some (Inr page))"
  proof (cases "detected_box rt (d page)")
    case None
    then show ?thesis using detectAndCrop_no_box [OF q, of ?e page] by simp
  next
    case (Some b)
    then have "check_box rt b \<noteq> Inr Accepted"
      using assms(3) check_box_rejected [of rt b] by auto
    then show ?thesis using detectAndCrop_gate [OF q, of ?e page b] Some by simp
  qed
  have en: "enhance ?e page = ([CallEnhance page], snd (enhance e page))"
    by (simp add: enhance_def Let_def)
  have tr: "processSingleFigure_try rt ?e target
      = ([CallDetect page, CallEnhance page],
         Some (Inr \<lparr>imageUrl = snd (enhance e page), label = target, error = None\<rparr>))"
    using assms(1,2) dc en by (simp add: processSingleFigure_try_def)
  have s: "fails_gate (Fin 0) (Fin 0)"
    by (simp add: fails_gate_def)
  show ?thesis
    using tr s sentinel_fails
    by (simp add: processSingleFigure_calls_def processSingleFigure_def)
qed

theorem rejected_box_keeps_page_witness:
  "processSingleFigure_calls small_runtime
       (example_env\<lparr>detect_call := \<lambda>img. Text (Some sentinel_text)\<rparr>) (JStr (js ''Figure 1''))
     = [CallDetect (js ''PAGE5''), CallEnhance (js ''PAGE5'')]
   \<and> processSingleFigure_calls small_runtime
       (example_env\<lparr>detect_call := \<lambda>img. Text (Some (js ''no figure''))\<rparr>) (JStr (js ''Figure 1''))
     = [CallDetect (js ''PAGE5''), CallEnhance (js ''PAGE5'')]
   \<and> processSingleFigure small_runtime
       (example_env\<lparr>detect_call := \<lambda>img. Text (Some sentinel_text)\<rparr>) (JStr (js ''Figure 1''))
     = Some (Inr \<lparr>imageUrl = js ''data:image/png;base64,BBB'', label = JStr (js ''Figure 1''),
                  error = None\<rparr>)
   \<and> processSingleFigure small_runtime
       (example_env\<lparr>detect_call := \<lambda>img. Text (Some (js ''no figure''))\<rparr>) (JStr (js ''Figure 1''))
     = Some (Inr \<lparr>imageUrl = js ''data:image/png;base64,BBB'', label = JStr (js ''Figure 1''),
                  error = None\<rparr>)"
proof -
  have g: "box_size small_runtime [JNum (Fin 0), JNum (Fin 0), JNum (Fin 0), JNum (Fin 0)]
      = Some (Fin 0, Fin 0) \<and> fails_gate (Fin 0) (Fin 0)"
    by (simp add: box_size_def minus_at_def num_at_def to_number_def fl_def fails_gate_def)
  have a: "detected_box small_runtime (Text (Some sentinel_text)) = None
      \<or> (\<exists>b. detected_box small_runtime (Text (Some sentinel_text)) = Some b
            \<and> (box_size small_runtime b = None
                \<or> (\<exists>h w. box_size small_runtime b = Some (h, w) \<and> fails_gate h w)))"
    using sentinel_detected g by simp
  have b: "detected_box small_runtime (Text (Some (js ''no figure''))) = None
      \<or> (\<exists>b. detected_box small_runtime (Text (Some (js ''no figure''))) = Some b
            \<and> (box_size small_runtime b = None
                \<or> (\<exists>h w. box_size small_runtime b = Some (h, w) \<and> fails_gate h w)))"
    using prose_not_detected by simp
  have en: "snd (enhance example_env (js ''PAGE5'')) = js ''data:image/png;base64,BBB''"
    using enhance_example [of "js ''PAGE5''"] by simp
  from rejected_box_keeps_page [OF example_located example_rendered,
      of small_runtime "\<lambda>img. Text (Some sentinel_text)", OF a]
    rejected_box_keeps_page [OF example_located example_rendered,
      of small_runtime "\<lambda>img. Text (Some (js ''no figure''))", OF b]
  show ?thesis unfolding en by simp
qed

subsection \<open>One target\<close>

lemma detectAndCrop_settles: "snd (detectAndCrop rt e target page) \<noteq> None"
proof (cases "to_string rt target")
  case None
  then show ?thesis by (simp add: detectAndCrop_def)
next
  case (Some name)
  have crop: "cropImage rt e page b = None \<Longrightarrow> check_box rt b = Inr g \<Longrightarrow> False" for b g
  proof -
    assume n: "cropImage rt e page b = None" and c: "check_box rt b = Inr g"
    from c have "box_ratios rt b \<noteq> None" by (rule checked_box_ratios)
    then have "\<exists>out. cropImage rt e page b = Some (Inr out)" by (rule cropImage_settles)
    with n show False by simp
  qed
  show ?thesis
    using Some
    by (auto simp: detectAndCrop_def Let_def dest: crop
        split: gen_text.splits option.splits sum.splits gate.splits)
qed

lemma detectAndCrop_pending: "detectAndCrop rt e target page = (calls, None) \<Longrightarrow> False"
  using detectAndCrop_settles [of rt e target page] by simp

lemma processSingleFigure_try_settles: "snd (processSingleFigure_try rt e target) \<noteq> None"
  by (auto simp: processSingleFigure_try_def dest: detectAndCrop_pending
      split: sum.splits prod.splits option.splits)

lemma processSingleFigure_try_label:
  "snd (processSingleFigure_try rt e target) = Some (Inr r) \<Longrightarrow>
   label r = target \<and> to_string rt target \<noteq> None"
  by (auto simp: processSingleFigure_try_def detectAndCrop_def
      split: sum.splits prod.splits option.splits)

lemma processSingleFigure_settles: "processSingleFigure rt e target \<noteq> None"
  using processSingleFigure_try_settles [of rt e target]
  by (auto simp: processSingleFigure_def split: option.splits sum.splits)

lemma processSingleFigure_Inr:
  "processSingleFigure rt e target = Some (Inr r) \<Longrightarrow>
   label r = target \<and> to_string rt target \<noteq> None"
  using processSingleFigure_try_label [of rt e target]
  by (auto simp: processSingleFigure_def split: option.splits sum.splits)

lemma processSingleFigure_fulfils:
  assumes "to_string rt target \<noteq> None"
  shows "\<exists>r. processSingleFigure rt e target = Some (Inr r) \<and> label r = target"
proof -
  obtain name where n: "to_string rt target = Some name" using assms by auto
  show ?thesis
  proof (cases "snd (processSingleFigure_try rt e target)")
    case None
    then show ?thesis using processSingleFigure_try_settles [of rt e target] by simp
  next
    case (Some oc)
    show ?thesis
    proof (cases oc)
      case (Inl err)
      then show ?thesis using Some n by (simp add: processSingleFigure_def)
    next
      case (Inr r)
      then show ?thesis
        using Some processSingleFigure_try_label [of rt e target r]
        by (simp add: processSingleFigure_def)
    qed
  qed
qed



lemma processSingleFigure_the:
  assumes "to_string rt target \<noteq> None"
  shows "processSingleFigure rt e target
         = Some (Inr (projr (the (processSingleFigure rt e target))))"
  using processSingleFigure_fulfils [OF assms, of e] by auto



subsection \<open>Orchestrator\<close>

lemma those_map_Some: "those (map Some xs) = Some xs"
  by (induction xs) simp_all

lemma those_Some_map: "those xs = Some ys \<Longrightarrow> xs = map Some ys"
  by (induction xs arbitrary: ys) (auto split: option.splits)

lemma settle_fulfilled:
  "length vals = length vs \<Longrightarrow>
   \<forall>i < length vs. vals ! i = Some (vs ! i) \<or> i \<in> set order \<Longrightarrow>
   settle (map (\<lambda>v. Some (Inr v)) vs) order vals = Some (Inr vs)"
proof (induction order arbitrary: vals)
  case Nil
  then have "vals = map Some vs"
    by (simp add: list_eq_iff_nth_eq)
  then show ?case by (simp add: those_map_Some)
next
  case (Cons i order)
  show ?case
  proof (cases "i < length vs")
    case True
    have "settle (map (\<lambda>v. Some (Inr v)) vs) order (vals[i := Some (vs ! i)]) = Some (Inr vs)"
    proof (rule Cons.IH)
      show "length (vals[i := Some (vs ! i)]) = length vs" using Cons.prems(1) by simp
      show "\<forall>j < length vs. vals[i := Some (vs ! i)] ! j = Some (vs ! j) \<or> j \<in> set order"
      proof (intro allI impI)
        fix j assume j: "j < length vs"
        show "vals[i := Some (vs ! i)] ! j = Some (vs ! j) \<or> j \<in> set order"
        proof (cases "j = i")
          case True
          then show ?thesis using j Cons.prems(1) by simp
        next
          case False
          then show ?thesis using j Cons.prems(2) by auto
        qed
      qed
    qed
    then show ?thesis using True by simp
  next
    case False
    have "settle (map (\<lambda>v. Some (Inr v)) vs) order vals = Some (Inr vs)"
    proof (rule Cons.IH [OF Cons.prems(1)])
      show "\<forall>j < length vs. vals ! j = Some (vs ! j) \<or> j \<in> set order"
        using Cons.prems(2) False by auto
    qed
    then show ?thesis using False by simp
  qed
qed

lemma promise_all_fulfilled:
  "{0..<length vs} \<subseteq> set order \<Longrightarrow>
   promise_all (map (\<lambda>v. Some (Inr v)) vs) order = Some (Inr vs)"
  unfolding promise_all_def
  by (rule settle_fulfilled) auto

lemma settle_Inr:
  "settle ps order vals = Some (Inr vs) \<Longrightarrow> length vals = length ps \<Longrightarrow>
   \<forall>i < length ps. \<forall>v. vals ! i = Some v \<longrightarrow> ps ! i = Some (Inr v) \<Longrightarrow>
   length vs = length ps \<and> (\<forall>i < length ps. ps ! i = Some (Inr (vs ! i)))"
proof (induction order arbitrary: vals)
  case Nil
  then have "those vals = Some vs" by auto
  then have v: "vals = map Some vs" by (rule those_Some_map)
  then have len: "length vs = length ps" using Nil.prems(2) by simp
  have "\<forall>i < length ps. ps ! i = Some (Inr (vs ! i))"
  proof (intro allI impI)
    fix i assume i: "i < length ps"
    then have "vals ! i = Some (vs ! i)" using v len by simp
    then show "ps ! i = Some (Inr (vs ! i))" using Nil.prems(3) i by blast
  qed
  with len show ?case by simp
next
  case (Cons i order)
  show ?case
  proof (cases "i < length ps")
    case False
    then have "settle ps order vals = Some (Inr vs)" using Cons.prems(1) by simp
    from Cons.IH [OF this Cons.prems(2,3)] show ?thesis .
  next
    case True
    show ?thesis
    proof (cases "ps ! i")
      case None
      then have "settle ps order vals = Some (Inr vs)" using Cons.prems(1) True by simp
      from Cons.IH [OF this Cons.prems(2,3)] show ?thesis .
    next
      case (Some oc)
      show ?thesis
      proof (cases oc)
        case (Inl err)
        then show ?thesis using Cons.prems(1) True Some by simp
      next
        case (Inr v)
        then have s: "settle ps order (vals[i := Some v]) = Some (Inr vs)"
          using Cons.prems(1) True Some by simp
        have l: "length (vals[i := Some v]) = length ps" using Cons.prems(2) by simp
        have inv: "\<forall>j < length ps. \<forall>u. vals[i := Some v] ! j = Some u \<longrightarrow> ps ! j = Some (Inr u)"
        proof (intro allI impI)
          fix j u assume j: "j < length ps" and u: "vals[i := Some v] ! j = Some u"
          show "ps ! j = Some (Inr u)"
          proof (cases "j = i")
            case True
            then show ?thesis using u j Cons.prems(2) Some Inr by simp
          next
            case False
            then show ?thesis using u j Cons.prems(3) by simp
          qed
        qed
        from Cons.IH [OF s l inv] show ?thesis .
      qed
    qed
  qed
qed

lemma promise_all_Inr:
  assumes "promise_all ps order = Some (Inr vs)"
  shows "length vs = length ps \<and> (\<forall>i < length ps. ps ! i = Some (Inr (vs ! i)))"
  using assms unfolding promise_all_def
  by (rule settle_Inr) simp_all



lemma run_targets_Inr:
  assumes "run_targets rt branches order = Some (Inr rs)"
  shows "length rs = length branches
         \<and> (\<forall>i < length branches.
               processSingleFigure rt (fst (branches ! i)) (snd (branches ! i))
                 = Some (Inr (rs ! i)))"
  using promise_all_Inr [OF assms [unfolded run_targets_def]]
  by (simp add: case_prod_beta)

lemma run_targets_fulfilled:
  assumes "\<forall>x \<in> set branches. to_string rt (snd x) \<noteq> None"
    and "{0..<length branches} \<subseteq> set order"
  shows "run_targets rt branches order
         = Some (Inr (map (\<lambda>x. projr (the (processSingleFigure rt (fst x) (snd x)))) branches))"
proof -
  let ?f = "\<lambda>x. projr (the (processSingleFigure rt (fst x) (snd x)))"
  have "map (\<lambda>(e, t). processSingleFigure rt e t) branches
        = map (\<lambda>v. Some (Inr v)) (map ?f branches)"
    using assms(1) by (auto simp: processSingleFigure_the [symmetric])
  then show ?thesis
    unfolding run_targets_def using assms(2) by (simp only: promise_all_fulfilled length_map)
qed

lemma figure_results_Inr:
  assumes "figure_results rt w query = Some (Inr results)"
    and "targets = extractFigureTargets rt (extract_response w) query"
  shows "length results = length targets
         \<and> (\<forall>i < length targets.
               processSingleFigure rt (branch w i) (targets ! i) = Some (Inr (results ! i)))"
proof -
  let ?bs = "zip (map (branch w) [0..<length targets]) targets"
  have "run_targets rt ?bs (settle_order w) = Some (Inr results)"
    using assms by (simp add: figure_results_def Let_def)
  from run_targets_Inr [OF this] show ?thesis by simp
qed

lemma labels_by_nth:
  assumes "length results = length targets"
    and "\<forall>i < length targets. label (results ! i) = targets ! i"
  shows "map label results = targets"
  using assms by (intro nth_equalityI) simp_all

lemma add_result_grows:
  "to_string rt (label r) \<noteq> None \<Longrightarrow>
   \<exists>x. add_result rt (c, b) r = Inr (c @ x, b \<or> imageUrl r \<noteq> [])"
  by (auto simp: add_result_def)

lemma add_results_grows:
  "\<forall>r \<in> set rs. to_string rt (label r) \<noteq> None \<Longrightarrow>
   \<exists>x. add_results rt (c, b) rs = Inr (c @ x, b \<or> (\<exists>r \<in> set rs. imageUrl r \<noteq> []))"
proof (induction rs arbitrary: c b)
  case Nil
  then show ?case by simp
next
  case (Cons r rs)
  have "to_string rt (label r) \<noteq> None" using Cons.prems by simp
  then obtain y where y: "add_result rt (c, b) r = Inr (c @ y, b \<or> imageUrl r \<noteq> [])"
    using add_result_grows by blast
  have "\<forall>r \<in> set rs. to_string rt (label r) \<noteq> None" using Cons.prems by simp
  from Cons.IH [OF this]
  obtain x where x: "add_results rt (c @ y, b \<or> imageUrl r \<noteq> []) rs
      = Inr ((c @ y) @ x, (b \<or> imageUrl r \<noteq> []) \<or> (\<exists>r \<in> set rs. imageUrl r \<noteq> []))"
    by blast
  have "add_results rt (c, b) (r # rs)
      = Inr (c @ (y @ x), b \<or> (\<exists>r \<in> set (r # rs). imageUrl r \<noteq> []))"
    using x y by auto
  then show ?case by blast
qed

lemma compose_content_all_failed:
  "\<forall>r \<in> set results. to_string rt (label r) \<noteq> None \<Longrightarrow>
   \<forall>r \<in> set results. imageUrl r = [] \<Longrightarrow>
   compose_content rt results
     = Inr (js ''I could not locate or process the requested figures in this paper.'')"
  using add_results_grows [of results rt "js ''Here is your visualization.'' @ [10, 10]" False]
  by (auto simp: compose_content_def)

lemma compose_content_some_success:
  "\<forall>r \<in> set results. to_string rt (label r) \<noteq> None \<Longrightarrow>
   \<exists>r \<in> set results. imageUrl r \<noteq> [] \<Longrightarrow>
   \<exists>rest. compose_content rt results = Inr (js ''Here is your visualization.'' @ rest)"
  using add_results_grows [of results rt "js ''Here is your visualization.'' @ [10, 10]" False]
  by (auto simp: compose_content_def)

lemma figure_results_labels:
  assumes "figure_results rt w query = Some (Inr results)"
  shows "\<forall>r \<in> set results. to_string rt (label r) \<noteq> None"
proof
  fix r assume "r \<in> set results"
  then obtain i where i: "i < length results" "results ! i = r"
    by (auto simp: in_set_conv_nth)
  note fr = figure_results_Inr [OF assms refl]
  have "processSingleFigure rt (branch w i)
          (extractFigureTargets rt (extract_response w) query ! i) = Some (Inr r)"
    using fr i by simp
  from processSingleFigure_Inr [OF this] show "to_string rt (label r) \<noteq> None" by simp
qed

lemmas locate_eval =
  findPageForQuery_def queryPattern_def canon_def startsWith_def toLowerCase_def Let_def
  scanPages.simps getPage_def foundStrict_def test_def captionPattern_def loosePattern_def

lemma locate_Table_2: "findPageForQuery True (Some loose_then_strict) (JStr (js ''Table 2'')) = Inr 1"
  by (simp add: locate_eval loose_then_strict_def)

lemma locate_Figure_3: "findPageForQuery True (Some loose_then_strict) (JStr (js ''Figure 3'')) = Inr 1"
  by (simp add: locate_eval loose_then_strict_def)

lemma detect_sentinel:
  "detectAndCrop targets_runtime example_env (JStr q) img = ([CallDetect img], Some (Inr img))"
  by (simp add: detectAndCrop_def to_string_def example_env_def targets_runtime_def
      sentinel_text_def three_targets_text_def two_targets_text_def or_default_def
      cleanFences_def startsWith_def get_box_2d_def box_of_def check_box_def box_size_def
      minus_at_def num_at_def to_number_def fl_def)

lemma example_Figure_1:
  "processSingleFigure targets_runtime example_env (JStr (js ''Figure 1''))
     = Some (Inr \<lparr>imageUrl = js ''data:image/png;base64,BBB'', label = JStr (js ''Figure 1''),
                  error = None\<rparr>)"
  using example_located example_rendered
  by (simp add: processSingleFigure_def processSingleFigure_try_def detect_sentinel
      enhance_example)

lemma example_Figure_3:
  "processSingleFigure targets_runtime example_env (JStr (js ''Figure 3''))
     = Some (Inr \<lparr>imageUrl = js ''data:image/png;base64,BBB'', label = JStr (js ''Figure 3''),
                  error = None\<rparr>)"
proof -
  have l: "findPageForQuery (pdfjsLib example_env) (locate_doc example_env) (JStr (js ''Figure 3'')) = Inr 1"
    using locate_Figure_3 by (simp add: example_env_def)
  have r: "renderPageAsImage (pdfjsLib example_env) (raster example_env) 1 = Inr (js ''PAGE'')"
    by (simp add: renderPageAsImage_def example_env_def)
  show ?thesis
    using l r
    by (simp add: processSingleFigure_def processSingleFigure_try_def detect_sentinel
        enhance_example)
qed

lemma broken_locate_Table_2:
  "findPageForQuery (pdfjsLib broken_env) (locate_doc broken_env) (JStr (js ''Table 2'')) = Inr 1"
  using locate_Table_2 by (simp add: broken_env_def example_env_def)

lemma broken_locate_Figure_1:
  "findPageForQuery (pdfjsLib broken_env) (locate_doc broken_env) (JStr (js ''Figure 1'')) = Inr 5"
  using locate_example by (simp add: broken_env_def example_env_def)

lemma broken_render:
  "renderPageAsImage (pdfjsLib broken_env) (raster broken_env) n = Inl ExternalError"
  by (simp add: renderPageAsImage_def broken_env_def example_env_def)

lemma broken_Table_2:
  "processSingleFigure targets_runtime broken_env (JStr (js ''Table 2''))
     = Some (Inr \<lparr>imageUrl = [], label = JStr (js ''Table 2''),
                  error = Some (js ''Failed to process'')\<rparr>)"
  using broken_locate_Table_2 broken_render [of 1]
  by (simp add: processSingleFigure_def processSingleFigure_try_def to_string_def)

lemma broken_Figure_1:
  "processSingleFigure targets_runtime broken_env (JStr (js ''Figure 1''))
     = Some (Inr \<lparr>imageUrl = [], label = JStr (js ''Figure 1''),
                  error = Some (js ''Failed to process'')\<rparr>)"
  using broken_locate_Figure_1 broken_render [of 5]
  by (simp add: processSingleFigure_def processSingleFigure_try_def to_string_def)




lemma three_targets:
  "extractFigureTargets targets_runtime (extract_response three_world) q
     = [JStr (js ''Figure 1''), JStr (js ''Table 2''), JStr (js ''Figure 3'')]"
  by (simp add: extractFigureTargets_def three_world_def targets_runtime_def or_default_def
      three_targets_text_def)

lemma two_targets:
  "extractFigureTargets targets_runtime (extract_response failing_world) q
     = [JStr (js ''Figure 1''), JStr (js ''Table 2'')]"
  by (simp add: extractFigureTargets_def failing_world_def targets_runtime_def or_default_def
      three_targets_text_def two_targets_text_def)

lemma upt_3: "[0..<3] = [0, 1, 2]"
  by (simp add: upt_rec)

lemma upt_2: "[0..<2] = [0, 1]"
  by (simp add: upt_rec)

lemma three_world_results:
  "figure_results targets_runtime three_world q
     = Some (Inr [\<lparr>imageUrl = js ''data:image/png;base64,BBB'', label = JStr (js ''Figure 1''), error = None\<rparr>,
                  \<lparr>imageUrl = [], label = JStr (js ''Table 2''), error = Some (js ''Failed to process'')\<rparr>,
                  \<lparr>imageUrl = js ''data:image/png;base64,BBB'', label = JStr (js ''Figure 3''), error = None\<rparr>])"
  unfolding figure_results_def three_targets Let_def
  using example_Figure_1 example_Figure_3 broken_Table_2
  by (simp add: upt_3 run_targets_def promise_all_def three_world_def)

lemma failing_world_results:
  "figure_results targets_runtime failing_world q
     = Some (Inr [\<lparr>imageUrl = [], label = JStr (js ''Figure 1''), error = Some (js ''Failed to process'')\<rparr>,
                  \<lparr>imageUrl = [], label = JStr (js ''Table 2''), error = Some (js ''Failed to process'')\<rparr>])"
  unfolding figure_results_def two_targets Let_def
  using broken_Figure_1 broken_Table_2
  by (simp add: upt_2 run_targets_def promise_all_def failing_world_def)




text \<open>
  C2. Whenever a request produces a result list, in whatever order its branches settle,
  the list has one result per extracted target, at the position of the target: the
  \<open>i\<close>-th result is what \<open>processSingleFigure\<close> resolves with for the \<open>i\<close>-th target
  and carries its label. A request produces a result list when every extracted target
  converts to a string and every branch settles.
\<close>

theorem results_in_target_order:
  assumes "targets = extractFigureTargets rt (extract_response w) query"
  shows "(figure_results rt w query = Some (Inr results)
          \<longrightarrow> length results = length targets
              \<and> map label results = targets
              \<and> (\<forall>i < length targets.
                    processSingleFigure rt (branch w i) (targets ! i) = Some (Inr (results ! i))))
       \<and> ((\<forall>t \<in> set targets. to_string rt t \<noteq> None)
            \<and> {0..<length targets} \<subseteq> set (settle_order w)
          \<longrightarrow> (\<exists>rs. figure_results rt w query = Some (Inr rs)))"
proof (rule conjI)
  show "figure_results rt w query = Some (Inr results)
          \<longrightarrow> length results = length targets
              \<and> map label results = targets
              \<and> (\<forall>i < length targets.
                    processSingleFigure rt (branch w i) (targets ! i) = Some (Inr (results ! i)))"
  proof
    assume fr: "figure_results rt w query = Some (Inr results)"
    note inv = figure_results_Inr [OF fr assms]
    have len: "length results = length targets" using inv by simp
    have each: "\<forall>i < length targets.
        processSingleFigure rt (branch w i) (targets ! i) = Some (Inr (results ! i))"
      using inv by simp
    have "\<forall>i < length targets. label (results ! i) = targets ! i"
    proof (intro allI impI)
      fix i assume "i < length targets"
      then have "processSingleFigure rt (branch w i) (targets ! i) = Some (Inr (results ! i))"
        using each by simp
      from processSingleFigure_Inr [OF this] show "label (results ! i) = targets ! i" by simp
    qed
    then have "map label results = targets" using len by (intro labels_by_nth) simp_all
    with len each show "length results = length targets
              \<and> map label results = targets
              \<and> (\<forall>i < length targets.
                    processSingleFigure rt (branch w i) (targets ! i) = Some (Inr (results ! i)))"
      by simp
  qed
  show "(\<forall>t \<in> set targets. to_string rt t \<noteq> None)
            \<and> {0..<length targets} \<subseteq> set (settle_order w)
          \<longrightarrow> (\<exists>rs. figure_results rt w query = Some (Inr rs))"
  proof (intro impI, elim conjE)
    let ?bs = "zip (map (branch w) [0..<length targets]) targets"
    assume str: "\<forall>t \<in> set targets. to_string rt t \<noteq> None"
      and ord: "{0..<length targets} \<subseteq> set (settle_order w)"
    have 1: "\<forall>x \<in> set ?bs. to_string rt (snd x) \<noteq> None"
      using str by (auto dest: set_zip_rightD)
    have 2: "{0..<length ?bs} \<subseteq> set (settle_order w)" using ord by simp
    have "figure_results rt w query = run_targets rt ?bs (settle_order w)"
      by (simp add: figure_results_def Let_def assms)
    then show "\<exists>rs. figure_results rt w query = Some (Inr rs)"
      using run_targets_fulfilled [OF 1 2] by simp
  qed
qed

theorem results_in_target_order_witness:
  "map_option (map_sum id (map label))
       (figure_results targets_runtime three_world (js ''show figure 1, table 2 and figure 3''))
     = Some (Inr [JStr (js ''Figure 1''), JStr (js ''Table 2''), JStr (js ''Figure 3'')])"
proof -
  let ?q = "js ''show figure 1, table 2 and figure 3''"
  let ?ts = "[JStr (js ''Figure 1''), JStr (js ''Table 2''), JStr (js ''Figure 3'')]"
  have t: "?ts = extractFigureTargets targets_runtime (extract_response three_world) ?q"
    by (simp only: three_targets)
  have pre: "(\<forall>t \<in> set ?ts. to_string targets_runtime t \<noteq> None)
      \<and> {0..<length ?ts} \<subseteq> set (settle_order three_world)"
    by (auto simp: to_string_def three_world_def)
  from results_in_target_order [OF t, THEN conjunct2, THEN mp, OF pre]
  obtain rs where fr: "figure_results targets_runtime three_world ?q = Some (Inr rs)"
    by (rule exE)
  note all = results_in_target_order [OF t, where results = rs, THEN conjunct1, THEN mp, OF fr]
  note lb = all [THEN conjunct2, THEN conjunct1]
  show ?thesis unfolding fr by (simp add: lb)
qed

text \<open>
  C6. When every result of a request is a failure (an empty image), the content of the
  message of \<open>visualizeFigure\<close> is the single sentence \<open>I could not locate or process the
  requested figures in this paper.\<close>, with no notice per target. When at least one target
  succeeded the content begins with \<open>Here is your visualization.\<close> and is a different
  text, so the two outcomes can be told apart.
\<close>

theorem all_failed_single_message:
  assumes "figure_results rt w query = Some (Inr results)"
  shows "((\<forall>r \<in> set results. imageUrl r = [])
          \<longrightarrow> map_option content (visualizeFigure rt w query (Some p))
              = Some (js ''I could not locate or process the requested figures in this paper.''))
       \<and> ((\<exists>r \<in> set results. imageUrl r \<noteq> [])
          \<longrightarrow> (\<exists>m rest. visualizeFigure rt w query (Some p) = Some m
                 \<and> content m = js ''Here is your visualization.'' @ rest
                 \<and> content m \<noteq> js ''I could not locate or process the requested figures in this paper.''))"
proof -
  note lb = figure_results_labels [OF assms]
  have v: "compose_content rt results = Inr body \<Longrightarrow>
      visualizeFigure rt w query (Some p)
      = Some \<lparr>msg_id = randomUUID w, role = js ''model'',
               content = body, timestamp = now w,
               citations = Some [], msg_type = Some (js ''visualization'')\<rparr>" for body
    using assms by (simp add: visualizeFigure_def)
  have a: "(\<forall>r \<in> set results. imageUrl r = [])
          \<longrightarrow> map_option content (visualizeFigure rt w query (Some p))
              = Some (js ''I could not locate or process the requested figures in this paper.'')"
  proof
    assume "\<forall>r \<in> set results. imageUrl r = []"
    from v [OF compose_content_all_failed [OF lb this]]
    show "map_option content (visualizeFigure rt w query (Some p))
              = Some (js ''I could not locate or process the requested figures in this paper.'')"
      by simp
  qed
  have b: "(\<exists>r \<in> set results. imageUrl r \<noteq> [])
          \<longrightarrow> (\<exists>m rest. visualizeFigure rt w query (Some p) = Some m
                 \<and> content m = js ''Here is your visualization.'' @ rest
                 \<and> content m \<noteq> js ''I could not locate or process the requested figures in this paper.'')"
  proof
    assume "\<exists>r \<in> set results. imageUrl r \<noteq> []"
    from compose_content_some_success [OF lb this]
    obtain rest where r: "compose_content rt results = Inr (js ''Here is your visualization.'' @ rest)"
      by (rule exE)
    have "js ''Here is your visualization.'' @ rest
        \<noteq> js ''I could not locate or process the requested figures in this paper.''"
      by simp
    then show "\<exists>m rest. visualizeFigure rt w query (Some p) = Some m
                 \<and> content m = js ''Here is your visualization.'' @ rest
                 \<and> content m \<noteq> js ''I could not locate or process the requested figures in this paper.''"
      using v [OF r] by simp
  qed
  from a b show ?thesis by (rule conjI)
qed

theorem all_failed_single_message_witness:
  "map_option content
       (visualizeFigure targets_runtime failing_world (js ''show figure 1 and table 2'')
          (Some example_paper))
     = Some (js ''I could not locate or process the requested figures in this paper.'')
   \<and> map_option content
       (visualizeFigure targets_runtime three_world (js ''show figure 1, table 2 and figure 3'')
          (Some example_paper))
     \<noteq> Some (js ''I could not locate or process the requested figures in this paper.'')"
proof -
  have 1: "map_option content
       (visualizeFigure targets_runtime failing_world (js ''show figure 1 and table 2'')
          (Some example_paper))
     = Some (js ''I could not locate or process the requested figures in this paper.'')"
    using all_failed_single_message [OF failing_world_results [of "js ''show figure 1 and table 2''"],
        where p = example_paper, THEN conjunct1]
    by simp
  have "\<exists>m rest. visualizeFigure targets_runtime three_world
          (js ''show figure 1, table 2 and figure 3'') (Some example_paper) = Some m
      \<and> content m = js ''Here is your visualization.'' @ rest
      \<and> content m \<noteq> js ''I could not locate or process the requested figures in this paper.''"
    using all_failed_single_message
        [OF three_world_results [of "js ''show figure 1, table 2 and figure 3''"],
        where p = example_paper, THEN conjunct2]
    by simp
  then have 2: "map_option content
       (visualizeFigure targets_runtime three_world (js ''show figure 1, table 2 and figure 3'')
          (Some example_paper))
     \<noteq> Some (js ''I could not locate or process the requested figures in this paper.'')"
    by auto
  from 1 2 show ?thesis by simp
qed

end
